theory Spec2Isabelle
  imports Main
begin

section \<open>Data model\<close>

text \<open>
  Modelled from the spec: the declarations of \<^verbatim>\<open>Session\<close>, \<^verbatim>\<open>Annotation\<close>,
  \<^verbatim>\<open>AnnotationStatus\<close> and \<^verbatim>\<open>ThreadMessage\<close> in \<^verbatim>\<open>types.ts\<close>, which the server imports.
  The fields are those of the data model of the spec; they agree with the object
  literals of \<^verbatim>\<open>createSession\<close>, \<^verbatim>\<open>addAnnotation\<close> and \<^verbatim>\<open>addThreadMessage\<close> in
  \<^verbatim>\<open>server/store.ts\<close> and with the properties the tool handlers read. An optional
  property is an \<open>option\<close>, \<open>None\<close> standing for an absent one. The context properties
  of an annotation (\<^verbatim>\<open>url\<close>, \<^verbatim>\<open>intent\<close>, \<^verbatim>\<open>severity\<close>, \<^verbatim>\<open>nearbyText\<close>,
  \<^verbatim>\<open>reactComponents\<close>, \<^verbatim>\<open>timestamp\<close>) are only passed through by the server; they are
  kept as strings and a number.
\<close>

datatype SessionStatus = Active | Closed

datatype AnnotationStatus = Pending | Acknowledged | Resolved | Dismissed

datatype Role = Human | Agent

record Session =
  s_id :: string
  s_url :: string
  s_status :: SessionStatus
  s_createdAt :: string
  s_updatedAt :: "string option"
  s_projectId :: "string option"

record ThreadMessage =
  m_id :: string
  m_role :: Role
  m_content :: string
  m_timestamp :: nat

record Annotation =
  a_id :: string
  sessionId :: string
  comment :: string
  element :: string
  elementPath :: string
  a_url :: "string option"
  intent :: "string option"
  severity :: "string option"
  a_timestamp :: "nat option"
  nearbyText :: "string option"
  reactComponents :: "string option"
  status :: AnnotationStatus
  createdAt :: string
  updatedAt :: "string option"
  resolvedAt :: "string option"
  resolvedBy :: "Role option"
  thread :: "ThreadMessage list option"

text \<open>
  \<^verbatim>\<open>Omit<Annotation, "id" | "sessionId" | "status" | "createdAt">\<close>, the \<^verbatim>\<open>data\<close> of
  \<^verbatim>\<open>addAnnotation\<close>.
\<close>

record AnnotationData =
  d_comment :: string
  d_element :: string
  d_elementPath :: string
  d_url :: "string option"
  d_intent :: "string option"
  d_severity :: "string option"
  d_timestamp :: "nat option"
  d_nearbyText :: "string option"
  d_reactComponents :: "string option"
  d_updatedAt :: "string option"
  d_resolvedAt :: "string option"
  d_resolvedBy :: "Role option"
  d_thread :: "ThreadMessage list option"

text \<open>
  \<^verbatim>\<open>Partial<Annotation>\<close>, the body that \<^verbatim>\<open>PATCH /annotations/:id\<close> parses and hands to
  \<^verbatim>\<open>updateAnnotation\<close>: every property may be absent (\<open>None\<close>). A property that is
  present carries a value of the property's type, as a JSON body of that type does.
\<close>

record AnnotationPatch =
  p_id :: "string option"
  p_sessionId :: "string option"
  p_comment :: "string option"
  p_element :: "string option"
  p_elementPath :: "string option"
  p_url :: "string option"
  p_intent :: "string option"
  p_severity :: "string option"
  p_timestamp :: "nat option"
  p_nearbyText :: "string option"
  p_reactComponents :: "string option"
  p_status :: "AnnotationStatus option"
  p_createdAt :: "string option"
  p_updatedAt :: "string option"
  p_resolvedAt :: "string option"
  p_resolvedBy :: "Role option"
  p_thread :: "ThreadMessage list option"

text \<open>
  The parameter type of \<^verbatim>\<open>updateAnnotation\<close> is
  \<^verbatim>\<open>Partial<Omit<Annotation, "id" | "sessionId" | "createdAt">>\<close>: a patch of that type has
  none of the three properties.
\<close>

definition omitsIdentity :: "AnnotationPatch \<Rightarrow> bool" where
  "omitsIdentity p \<longleftrightarrow> p_id p = None \<and> p_sessionId p = None \<and> p_createdAt p = None"

definition emptyPatch :: AnnotationPatch where
  "emptyPatch = \<lparr>p_id = None, p_sessionId = None, p_comment = None, p_element = None,
     p_elementPath = None, p_url = None, p_intent = None, p_severity = None,
     p_timestamp = None, p_nearbyText = None, p_reactComponents = None, p_status = None,
     p_createdAt = None, p_updatedAt = None, p_resolvedAt = None, p_resolvedBy = None,
     p_thread = None\<rparr>"

section \<open>The two maps of the store\<close>

text \<open>
  \<^verbatim>\<open>sessions\<close> and \<^verbatim>\<open>annotations\<close> are JavaScript \<^verbatim>\<open>Map\<close>s: \<^verbatim>\<open>values()\<close> enumerates in
  insertion order, and \<^verbatim>\<open>set\<close> on a key that is present replaces the value where it
  stands. A map is the list of its entries in that order.
\<close>

type_synonym 'v jsmap = "(string \<times> 'v) list"

fun mapGet :: "'v jsmap \<Rightarrow> string \<Rightarrow> 'v option" where
  "mapGet [] k = None"
| "mapGet ((k', v) # es) k = (if k' = k then Some v else mapGet es k)"

fun mapSet :: "string \<Rightarrow> 'v \<Rightarrow> 'v jsmap \<Rightarrow> 'v jsmap" where
  "mapSet k v [] = [(k, v)]"
| "mapSet k v ((k', v') # es) = (if k' = k then (k, v) # es else (k', v') # mapSet k v es)"

definition mapValues :: "'v jsmap \<Rightarrow> 'v list" where
  "mapValues es = map snd es"

definition mapKeys :: "'v jsmap \<Rightarrow> string list" where
  "mapKeys es = map fst es"

record store =
  sessions :: "Session jsmap"
  annotations :: "Annotation jsmap"

definition emptyStore :: store where
  "emptyStore = \<lparr>sessions = [], annotations = []\<rparr>"

section \<open>Identifiers\<close>

text \<open>
  \<^verbatim>\<open>generateId\<close> reads the clock and the random number generator. The model takes the two
  readings as arguments: \<open>ms\<close> is the value of \<^verbatim>\<open>Date.now()\<close> and \<open>r\<close> the string
  \<^verbatim>\<open>Math.random().toString(36)\<close>. \<open>toString36\<close> is \<^verbatim>\<open>toString(36)\<close> on a natural number and
  \<open>slice\<close> is \<^verbatim>\<open>String.prototype.slice\<close> for indices within \<open>0 \<le> b \<le> e\<close>.
\<close>

definition digits36 :: string where
  "digits36 = ''0123456789abcdefghijklmnopqrstuvwxyz''"

definition digit36 :: "nat \<Rightarrow> char" where
  "digit36 d = digits36 ! d"

fun toString36 :: "nat \<Rightarrow> string" where
  "toString36 n = (if n < 36 then [digit36 n] else toString36 (n div 36) @ [digit36 (n mod 36)])"

declare toString36.simps [simp del]

definition slice :: "nat \<Rightarrow> nat \<Rightarrow> string \<Rightarrow> string" where
  "slice b e s = take (e - b) (drop b s)"

type_synonym entropy = "nat \<times> string"

definition generateId :: "entropy \<Rightarrow> string" where
  "generateId en = toString36 (fst en) @ ''-'' @ slice 2 8 (snd en)"

section \<open>Store operations\<close>

text \<open>
  Each operation takes the store and returns its result with the store it leaves. The
  readings of the environment come as arguments, one for each read the source makes: an
  \<open>entropy\<close> for a call of \<^verbatim>\<open>generateId\<close>, a string for \<^verbatim>\<open>new Date().toISOString()\<close>, a
  number for \<^verbatim>\<open>Date.now()\<close>. \<open>None\<close> is the \<^verbatim>\<open>undefined\<close> an operation returns for an
  absent entity.
\<close>

definition createSession :: "string \<Rightarrow> string option \<Rightarrow> entropy \<Rightarrow> string \<Rightarrow> store \<Rightarrow> Session \<times> store" where
  "createSession url projectId en tm st =
     (let session = \<lparr>s_id = generateId en, s_url = url, s_status = Active, s_createdAt = tm,
                      s_updatedAt = None, s_projectId = projectId\<rparr>
      in (session, st\<lparr>sessions := mapSet (s_id session) session (sessions st)\<rparr>))"

definition getSession :: "string \<Rightarrow> store \<Rightarrow> Session option" where
  "getSession i st = mapGet (sessions st) i"

definition getSessionAnnotations :: "string \<Rightarrow> store \<Rightarrow> Annotation list" where
  "getSessionAnnotations sid st = filter (\<lambda>a. sessionId a = sid) (mapValues (annotations st))"

definition getSessionWithAnnotations :: "string \<Rightarrow> store \<Rightarrow> (Session \<times> Annotation list) option" where
  "getSessionWithAnnotations i st =
     (case mapGet (sessions st) i of
        None \<Rightarrow> None
      | Some session \<Rightarrow>
          Some (session, filter (\<lambda>a. sessionId a = i) (mapValues (annotations st))))"

definition updateSessionStatus :: "string \<Rightarrow> SessionStatus \<Rightarrow> string \<Rightarrow> store \<Rightarrow> Session option \<times> store" where
  "updateSessionStatus i status' tm st =
     (case mapGet (sessions st) i of
        None \<Rightarrow> (None, st)
      | Some session \<Rightarrow>
          (let session' = session\<lparr>s_status := status', s_updatedAt := Some tm\<rparr>
           in (Some session', st\<lparr>sessions := mapSet i session' (sessions st)\<rparr>)))"

definition listSessions :: "store \<Rightarrow> Session list" where
  "listSessions st = mapValues (sessions st)"

definition newAnnotation :: "AnnotationData \<Rightarrow> string \<Rightarrow> string \<Rightarrow> string \<Rightarrow> Annotation" where
  "newAnnotation d i sid tm =
     \<lparr>a_id = i, sessionId = sid, comment = d_comment d, element = d_element d,
      elementPath = d_elementPath d, a_url = d_url d, intent = d_intent d,
      severity = d_severity d, a_timestamp = d_timestamp d, nearbyText = d_nearbyText d,
      reactComponents = d_reactComponents d, status = Pending, createdAt = tm,
      updatedAt = d_updatedAt d, resolvedAt = d_resolvedAt d, resolvedBy = d_resolvedBy d,
      thread = d_thread d\<rparr>"

definition addAnnotation :: "string \<Rightarrow> AnnotationData \<Rightarrow> entropy \<Rightarrow> string \<Rightarrow> store \<Rightarrow> Annotation option \<times> store" where
  "addAnnotation sid d en tm st =
     (case mapGet (sessions st) sid of
        None \<Rightarrow> (None, st)
      | Some session \<Rightarrow>
          (let annotation = newAnnotation d (generateId en) sid tm
           in (Some annotation,
               st\<lparr>annotations := mapSet (a_id annotation) annotation (annotations st)\<rparr>)))"

definition getAnnotation :: "string \<Rightarrow> store \<Rightarrow> Annotation option" where
  "getAnnotation i st = mapGet (annotations st) i"

text \<open>
  The stored annotation is an object that the operations below change in place; the map
  keeps it under the key it was stored at, at the same position. \<open>putAnnotation\<close> writes
  the changed object back there.
\<close>

definition putAnnotation :: "string \<Rightarrow> Annotation \<Rightarrow> store \<Rightarrow> store" where
  "putAnnotation k a st = st\<lparr>annotations := mapSet k a (annotations st)\<rparr>"

definition updateAnnotationStatus :: "string \<Rightarrow> AnnotationStatus \<Rightarrow> Role option \<Rightarrow> string \<Rightarrow> string \<Rightarrow> store \<Rightarrow> Annotation option \<times> store" where
  "updateAnnotationStatus i status' who isoUpdated isoResolved st =
     (case mapGet (annotations st) i of
        None \<Rightarrow> (None, st)
      | Some annotation \<Rightarrow>
          (let a1 = annotation\<lparr>status := status', updatedAt := Some isoUpdated\<rparr>;
               a2 = (if status' = Resolved \<or> status' = Dismissed
                     then a1\<lparr>resolvedAt := Some isoResolved,
                             resolvedBy := Some (case who of None \<Rightarrow> Agent | Some r \<Rightarrow> r)\<rparr>
                     else a1)
           in (Some a2, putAnnotation i a2 st)))"

text \<open>
  \<^verbatim>\<open>Object.assign(annotation, data, {updatedAt: ...})\<close> copies every property that
  \<^verbatim>\<open>data\<close> has onto the annotation, then \<^verbatim>\<open>updatedAt\<close>.
\<close>

definition assign :: "'a \<Rightarrow> 'a option \<Rightarrow> 'a" where
  "assign old new = (case new of None \<Rightarrow> old | Some v \<Rightarrow> v)"

definition assignOpt :: "'a option \<Rightarrow> 'a option \<Rightarrow> 'a option" where
  "assignOpt old new = (case new of None \<Rightarrow> old | Some v \<Rightarrow> Some v)"

definition objectAssign :: "Annotation \<Rightarrow> AnnotationPatch \<Rightarrow> Annotation" where
  "objectAssign a p =
     \<lparr>a_id = assign (a_id a) (p_id p), sessionId = assign (sessionId a) (p_sessionId p),
      comment = assign (comment a) (p_comment p), element = assign (element a) (p_element p),
      elementPath = assign (elementPath a) (p_elementPath p),
      a_url = assignOpt (a_url a) (p_url p), intent = assignOpt (intent a) (p_intent p),
      severity = assignOpt (severity a) (p_severity p),
      a_timestamp = assignOpt (a_timestamp a) (p_timestamp p),
      nearbyText = assignOpt (nearbyText a) (p_nearbyText p),
      reactComponents = assignOpt (reactComponents a) (p_reactComponents p),
      status = assign (status a) (p_status p), createdAt = assign (createdAt a) (p_createdAt p),
      updatedAt = assignOpt (updatedAt a) (p_updatedAt p),
      resolvedAt = assignOpt (resolvedAt a) (p_resolvedAt p),
      resolvedBy = assignOpt (resolvedBy a) (p_resolvedBy p),
      thread = assignOpt (thread a) (p_thread p)\<rparr>"

definition updateAnnotation :: "string \<Rightarrow> AnnotationPatch \<Rightarrow> string \<Rightarrow> store \<Rightarrow> Annotation option \<times> store" where
  "updateAnnotation i p tm st =
     (case mapGet (annotations st) i of
        None \<Rightarrow> (None, st)
      | Some annotation \<Rightarrow>
          (let a' = (objectAssign annotation p)\<lparr>updatedAt := Some tm\<rparr>
           in (Some a', putAnnotation i a' st)))"

definition addThreadMessage :: "string \<Rightarrow> Role \<Rightarrow> string \<Rightarrow> entropy \<Rightarrow> nat \<Rightarrow> string \<Rightarrow> store \<Rightarrow> Annotation option \<times> store" where
  "addThreadMessage i role' content' en now tm st =
     (case mapGet (annotations st) i of
        None \<Rightarrow> (None, st)
      | Some annotation \<Rightarrow>
          (let message = \<lparr>m_id = generateId en, m_role = role', m_content = content',
                          m_timestamp = now\<rparr>;
               t0 = (case thread annotation of None \<Rightarrow> [] | Some t \<Rightarrow> t);
               a' = annotation\<lparr>thread := Some (t0 @ [message]), updatedAt := Some tm\<rparr>
           in (Some a', putAnnotation i a' st)))"

definition getPendingAnnotations :: "string \<Rightarrow> store \<Rightarrow> Annotation list" where
  "getPendingAnnotations sid st =
     filter (\<lambda>a. sessionId a = sid \<and> status a = Pending) (mapValues (annotations st))"

definition clearAll :: "store \<Rightarrow> store" where
  "clearAll st = st\<lparr>sessions := [], annotations := []\<rparr>"

section \<open>Sequences of store calls\<close>

text \<open>
  A call of one of the exported operations that change the store, with its arguments and
  the readings it makes; \<open>exec\<close> performs it and drops the returned value, \<open>run\<close> performs
  a sequence of calls from left to right.
\<close>

datatype op =
    CreateSession string "string option" entropy string
  | UpdateSessionStatus string SessionStatus string
  | AddAnnotation string AnnotationData entropy string
  | UpdateAnnotationStatus string AnnotationStatus "Role option" string string
  | UpdateAnnotation string AnnotationPatch string
  | AddThreadMessage string Role string entropy nat string
  | ClearAll

fun exec :: "op \<Rightarrow> store \<Rightarrow> store" where
  "exec (CreateSession url projectId en tm) st = snd (createSession url projectId en tm st)"
| "exec (UpdateSessionStatus i status' tm) st = snd (updateSessionStatus i status' tm st)"
| "exec (AddAnnotation sid d en tm) st = snd (addAnnotation sid d en tm st)"
| "exec (UpdateAnnotationStatus i status' who tmU tmR) st =
     snd (updateAnnotationStatus i status' who tmU tmR st)"
| "exec (UpdateAnnotation i p tm) st = snd (updateAnnotation i p tm st)"
| "exec (AddThreadMessage i role' content' en now tm) st =
     snd (addThreadMessage i role' content' en now tm st)"
| "exec ClearAll st = clearAll st"

fun run :: "op list \<Rightarrow> store \<Rightarrow> store" where
  "run [] st = st"
| "run (c # cs) st = run cs (exec c st)"

text \<open>A call whose arguments have the declared parameter types of the operation.\<close>

fun typed :: "op \<Rightarrow> bool" where
  "typed (UpdateAnnotation i p tm) = omitsIdentity p"
| "typed _ = True"

text \<open>
  A sequence of \<^verbatim>\<open>addThreadMessage\<close> calls on one annotation: each call gives the role, the
  content and the readings the call makes.
\<close>

type_synonym threadCall = "Role \<times> string \<times> entropy \<times> nat \<times> string"

definition messageOf :: "threadCall \<Rightarrow> ThreadMessage" where
  "messageOf c = (case c of (role', content', en, now, tm) \<Rightarrow>
     \<lparr>m_id = generateId en, m_role = role', m_content = content', m_timestamp = now\<rparr>)"

fun addThreadMessages :: "string \<Rightarrow> threadCall list \<Rightarrow> store \<Rightarrow> store" where
  "addThreadMessages i [] st = st"
| "addThreadMessages i ((role', content', en, now, tm) # cs) st =
     addThreadMessages i cs (snd (addThreadMessage i role' content' en now tm st))"

definition threadOf :: "Annotation \<Rightarrow> ThreadMessage list" where
  "threadOf a = (case thread a of None \<Rightarrow> [] | Some t \<Rightarrow> t)"

text \<open>Every annotation of the store names a session of the store.\<close>

definition sessionsExist :: "store \<Rightarrow> bool" where
  "sessionsExist st \<longleftrightarrow>
     list_all (\<lambda>a. mapGet (sessions st) (sessionId a) \<noteq> None) (mapValues (annotations st))"

text \<open>
  The calls that can take entries out of the thread of a stored annotation: a partial
  update whose data has the property \<^verbatim>\<open>thread\<close>, an \<^verbatim>\<open>addAnnotation\<close> that succeeds with an
  id already in use as a key (it replaces the annotation stored there), and
  \<^verbatim>\<open>clearAll\<close>. \<open>threadsKept\<close> says that a sequence of calls has none of them.
\<close>

fun replacesThread :: "op \<Rightarrow> store \<Rightarrow> bool" where
  "replacesThread (UpdateAnnotation i p tm) st = (p_thread p \<noteq> None)"
| "replacesThread (AddAnnotation sid d en tm) st =
     (mapGet (sessions st) sid \<noteq> None \<and> mapGet (annotations st) (generateId en) \<noteq> None)"
| "replacesThread ClearAll st = True"
| "replacesThread c st = False"

fun threadsKept :: "op list \<Rightarrow> store \<Rightarrow> bool" where
  "threadsKept [] st = True"
| "threadsKept (c # cs) st = (\<not> replacesThread c st \<and> threadsKept cs (exec c st))"

section \<open>Tool adapter\<close>

text \<open>
  The values that cross the tool channel (\<^verbatim>\<open>server/mcp.ts\<close>). \<^verbatim>\<open>args\<close> is \<^verbatim>\<open>unknown\<close>: any
  JavaScript value that a JSON message can carry, or \<^verbatim>\<open>undefined\<close> when the request has
  no \<^verbatim>\<open>arguments\<close>. An object is the list of its properties.
\<close>

datatype jsval =
    JUndefined
  | JNull
  | JBool bool
  | JNum int
  | JStr string
  | JArr "jsval list"
  | JObj "(string \<times> jsval) list"

definition property :: "(string \<times> jsval) list \<Rightarrow> string \<Rightarrow> jsval" where
  "property ps k = (case map_of ps k of None \<Rightarrow> JUndefined | Some v \<Rightarrow> v)"

text \<open>
  The schemas are built with the zod library: \<^verbatim>\<open>z.object({...}).parse(args)\<close> returns the
  declared properties when \<^verbatim>\<open>args\<close> is an object whose declared properties have the
  declared types, and throws a \<^verbatim>\<open>ZodError\<close> listing every issue otherwise. An issue names
  the path, the expected type and the type received.
\<close>

datatype zodIssue = InvalidType "string list" string string

datatype exn = ZodError "zodIssue list"

fun typeName :: "jsval \<Rightarrow> string" where
  "typeName JUndefined = ''undefined''"
| "typeName JNull = ''null''"
| "typeName (JBool b) = ''boolean''"
| "typeName (JNum n) = ''number''"
| "typeName (JStr s) = ''string''"
| "typeName (JArr vs) = ''array''"
| "typeName (JObj ps) = ''object''"

fun zObject :: "jsval \<Rightarrow> zodIssue list + (string \<times> jsval) list" where
  "zObject (JObj ps) = Inr ps"
| "zObject v = Inl [InvalidType [] ''object'' (typeName v)]"

fun zString :: "string \<Rightarrow> jsval \<Rightarrow> zodIssue list + string" where
  "zString k (JStr s) = Inr s"
| "zString k v = Inl [InvalidType [k] ''string'' (typeName v)]"

fun zStringOptional :: "string \<Rightarrow> jsval \<Rightarrow> zodIssue list + string option" where
  "zStringOptional k JUndefined = Inr None"
| "zStringOptional k (JStr s) = Inr (Some s)"
| "zStringOptional k v = Inl [InvalidType [k] ''string'' (typeName v)]"

definition issues :: "zodIssue list + 'a \<Rightarrow> zodIssue list" where
  "issues r = (case r of Inl is \<Rightarrow> is | Inr v \<Rightarrow> [])"

definition parse1 :: "(jsval \<Rightarrow> zodIssue list + 'a) \<Rightarrow> string \<Rightarrow> jsval \<Rightarrow> exn + 'a" where
  "parse1 f k args =
     (case zObject args of
        Inl is \<Rightarrow> Inl (ZodError is)
      | Inr ps \<Rightarrow>
          (case f (property ps k) of Inl is \<Rightarrow> Inl (ZodError is) | Inr v \<Rightarrow> Inr v))"

definition parse2 :: "(jsval \<Rightarrow> zodIssue list + 'a) \<Rightarrow> string \<Rightarrow> (jsval \<Rightarrow> zodIssue list + 'b) \<Rightarrow> string \<Rightarrow> jsval \<Rightarrow> exn + 'a \<times> 'b" where
  "parse2 f k g l args =
     (case zObject args of
        Inl is \<Rightarrow> Inl (ZodError is)
      | Inr ps \<Rightarrow>
          (case (f (property ps k), g (property ps l)) of
             (Inr v, Inr w) \<Rightarrow> Inr (v, w)
           | (r, q) \<Rightarrow> Inl (ZodError (issues r @ issues q))))"

definition GetPendingSchema :: "jsval \<Rightarrow> exn + string" where
  "GetPendingSchema = parse1 (zString ''sessionId'') ''sessionId''"

definition AcknowledgeSchema :: "jsval \<Rightarrow> exn + string" where
  "AcknowledgeSchema = parse1 (zString ''annotationId'') ''annotationId''"

definition ResolveSchema :: "jsval \<Rightarrow> exn + string \<times> string option" where
  "ResolveSchema =
     parse2 (zString ''annotationId'') ''annotationId'' (zStringOptional ''summary'') ''summary''"

definition DismissSchema :: "jsval \<Rightarrow> exn + string \<times> string" where
  "DismissSchema = parse2 (zString ''annotationId'') ''annotationId'' (zString ''reason'') ''reason''"

definition ReplySchema :: "jsval \<Rightarrow> exn + string \<times> string" where
  "ReplySchema = parse2 (zString ''annotationId'') ''annotationId'' (zString ''message'') ''message''"

definition GetSessionSchema :: "jsval \<Rightarrow> exn + string" where
  "GetSessionSchema = parse1 (zString ''sessionId'') ''sessionId''"

text \<open>
  A tool result holds one text block, \<^verbatim>\<open>{type: "text", text}\<close>. The text of a success is
  \<^verbatim>\<open>JSON.stringify(data, null, 2)\<close>; the model keeps the value that is serialised.
\<close>

datatype textBlock = Plain string | Stringified jsval

record ToolResult =
  content :: "textBlock list"
  isError :: "bool option"

definition success :: "jsval \<Rightarrow> ToolResult" where
  "success data = \<lparr>content = [Stringified data], isError = None\<rparr>"

definition error :: "string \<Rightarrow> ToolResult" where
  "error message = \<lparr>content = [Plain message], isError = Some True\<rparr>"

text \<open>The objects that the handlers serialise.\<close>

definition optStr :: "string option \<Rightarrow> jsval" where
  "optStr v = (case v of None \<Rightarrow> JUndefined | Some s \<Rightarrow> JStr s)"

definition optNum :: "nat option \<Rightarrow> jsval" where
  "optNum v = (case v of None \<Rightarrow> JUndefined | Some n \<Rightarrow> JNum (int n))"

fun sessionStatusStr :: "SessionStatus \<Rightarrow> string" where
  "sessionStatusStr Active = ''active''"
| "sessionStatusStr Closed = ''closed''"

fun statusStr :: "AnnotationStatus \<Rightarrow> string" where
  "statusStr Pending = ''pending''"
| "statusStr Acknowledged = ''acknowledged''"
| "statusStr Resolved = ''resolved''"
| "statusStr Dismissed = ''dismissed''"

fun roleStr :: "Role \<Rightarrow> string" where
  "roleStr Human = ''human''"
| "roleStr Agent = ''agent''"

definition messageJson :: "ThreadMessage \<Rightarrow> jsval" where
  "messageJson m = JObj [(''id'', JStr (m_id m)), (''role'', JStr (roleStr (m_role m))),
     (''content'', JStr (m_content m)), (''timestamp'', JNum (int (m_timestamp m)))]"

definition annotationJson :: "Annotation \<Rightarrow> jsval" where
  "annotationJson a = JObj [(''id'', JStr (a_id a)), (''sessionId'', JStr (sessionId a)),
     (''comment'', JStr (comment a)), (''element'', JStr (element a)),
     (''elementPath'', JStr (elementPath a)), (''url'', optStr (a_url a)),
     (''intent'', optStr (intent a)), (''severity'', optStr (severity a)),
     (''timestamp'', optNum (a_timestamp a)), (''nearbyText'', optStr (nearbyText a)),
     (''reactComponents'', optStr (reactComponents a)), (''status'', JStr (statusStr (status a))),
     (''createdAt'', JStr (createdAt a)), (''updatedAt'', optStr (updatedAt a)),
     (''resolvedAt'', optStr (resolvedAt a)),
     (''resolvedBy'', (case resolvedBy a of None \<Rightarrow> JUndefined | Some r \<Rightarrow> JStr (roleStr r))),
     (''thread'', (case thread a of None \<Rightarrow> JUndefined | Some t \<Rightarrow> JArr (map messageJson t)))]"

definition sessionWithAnnotationsJson :: "Session \<times> Annotation list \<Rightarrow> jsval" where
  "sessionWithAnnotationsJson sa = (case sa of (s, as) \<Rightarrow>
     JObj [(''id'', JStr (s_id s)), (''url'', JStr (s_url s)),
       (''status'', JStr (sessionStatusStr (s_status s))), (''createdAt'', JStr (s_createdAt s)),
       (''updatedAt'', optStr (s_updatedAt s)), (''projectId'', optStr (s_projectId s)),
       (''annotations'', JArr (map annotationJson as))])"

definition sessionSummary :: "Session \<Rightarrow> jsval" where
  "sessionSummary s = JObj [(''id'', JStr (s_id s)), (''url'', JStr (s_url s)),
     (''status'', JStr (sessionStatusStr (s_status s))), (''createdAt'', JStr (s_createdAt s))]"

definition pendingSummary :: "Annotation \<Rightarrow> jsval" where
  "pendingSummary a = JObj [(''id'', JStr (a_id a)), (''comment'', JStr (comment a)),
     (''element'', JStr (element a)), (''elementPath'', JStr (elementPath a)),
     (''url'', optStr (a_url a)), (''intent'', optStr (intent a)),
     (''severity'', optStr (severity a)), (''timestamp'', optNum (a_timestamp a)),
     (''nearbyText'', optStr (nearbyText a)), (''reactComponents'', optStr (reactComponents a))]"

text \<open>
  The readings a tool call makes, in the order of the source: the two timestamps of
  \<^verbatim>\<open>updateAnnotationStatus\<close>, then the identifier, the clock and the timestamp of
  \<^verbatim>\<open>addThreadMessage\<close>.
\<close>

record toolEnv =
  tmUpdated :: string
  tmResolved :: string
  msgEntropy :: entropy
  msgNow :: nat
  tmThread :: string

text \<open>
  \<^verbatim>\<open>handleTool\<close> returns a result or throws; \<open>Inl\<close> is the exception thrown. The store
  it leaves comes with either outcome.
\<close>

definition handleTool :: "string \<Rightarrow> jsval \<Rightarrow> toolEnv \<Rightarrow> store \<Rightarrow> (exn + ToolResult) \<times> store" where
  "handleTool name args env st =
    (if name = ''agentation_list_sessions'' then
       (Inr (success (JObj [(''sessions'', JArr (map sessionSummary (listSessions st)))])), st)
     else if name = ''agentation_get_session'' then
       (case GetSessionSchema args of
          Inl e \<Rightarrow> (Inl e, st)
        | Inr sid \<Rightarrow>
            (case getSessionWithAnnotations sid st of
               None \<Rightarrow> (Inr (error (''Session not found: '' @ sid)), st)
             | Some session \<Rightarrow> (Inr (success (sessionWithAnnotationsJson session)), st)))
     else if name = ''agentation_get_pending'' then
       (case GetPendingSchema args of
          Inl e \<Rightarrow> (Inl e, st)
        | Inr sid \<Rightarrow>
            (let pending = getPendingAnnotations sid st
             in (Inr (success (JObj [(''count'', JNum (int (length pending))),
                                     (''annotations'', JArr (map pendingSummary pending))])), st)))
     else if name = ''agentation_acknowledge'' then
       (case AcknowledgeSchema args of
          Inl e \<Rightarrow> (Inl e, st)
        | Inr aid \<Rightarrow>
            (case updateAnnotationStatus aid Acknowledged None (tmUpdated env) (tmResolved env) st of
               (None, st1) \<Rightarrow> (Inr (error (''Annotation not found: '' @ aid)), st1)
             | (Some annotation, st1) \<Rightarrow>
                 (Inr (success (JObj [(''acknowledged'', JBool True),
                                      (''annotationId'', JStr aid)])), st1)))
     else if name = ''agentation_resolve'' then
       (case ResolveSchema args of
          Inl e \<Rightarrow> (Inl e, st)
        | Inr (aid, summary) \<Rightarrow>
            (case updateAnnotationStatus aid Resolved (Some Agent) (tmUpdated env) (tmResolved env) st of
               (None, st1) \<Rightarrow> (Inr (error (''Annotation not found: '' @ aid)), st1)
             | (Some annotation, st1) \<Rightarrow>
                 (let st2 = (case summary of
                               None \<Rightarrow> st1
                             | Some sm \<Rightarrow>
                                 if sm = [] then st1
                                 else snd (addThreadMessage aid Agent (''Resolved: '' @ sm)
                                             (msgEntropy env) (msgNow env) (tmThread env) st1))
                  in (Inr (success (JObj [(''resolved'', JBool True), (''annotationId'', JStr aid),
                                          (''summary'', optStr summary)])), st2))))
     else if name = ''agentation_dismiss'' then
       (case DismissSchema args of
          Inl e \<Rightarrow> (Inl e, st)
        | Inr (aid, reason) \<Rightarrow>
            (case updateAnnotationStatus aid Dismissed (Some Agent) (tmUpdated env) (tmResolved env) st of
               (None, st1) \<Rightarrow> (Inr (error (''Annotation not found: '' @ aid)), st1)
             | (Some annotation, st1) \<Rightarrow>
                 (let st2 = snd (addThreadMessage aid Agent (''Dismissed: '' @ reason)
                                   (msgEntropy env) (msgNow env) (tmThread env) st1)
                  in (Inr (success (JObj [(''dismissed'', JBool True), (''annotationId'', JStr aid),
                                          (''reason'', JStr reason)])), st2))))
     else if name = ''agentation_reply'' then
       (case ReplySchema args of
          Inl e \<Rightarrow> (Inl e, st)
        | Inr (aid, message) \<Rightarrow>
            (case getAnnotation aid st of
               None \<Rightarrow> (Inr (error (''Annotation not found: '' @ aid)), st)
             | Some annotation \<Rightarrow>
                 (let st1 = snd (addThreadMessage aid Agent message
                                   (msgEntropy env) (msgNow env) (tmThread env) st)
                  in (Inr (success (JObj [(''replied'', JBool True), (''annotationId'', JStr aid),
                                          (''message'', JStr message)])), st1))))
     else (Inr (error (''Unknown tool: '' @ name)), st))"

text \<open>
  The handler that \<^verbatim>\<open>startMcpServer\<close> registers for tool calls: it catches what
  \<^verbatim>\<open>handleTool\<close> throws and returns \<^verbatim>\<open>error(err.message)\<close>. A \<^verbatim>\<open>ZodError\<close> is an
  \<^verbatim>\<open>Error\<close>; the text of its message is the library's and comes as the parameter
  \<open>render\<close>.
\<close>

definition callTool :: "(zodIssue list \<Rightarrow> string) \<Rightarrow> string \<Rightarrow> jsval \<Rightarrow> toolEnv \<Rightarrow> store \<Rightarrow> ToolResult \<times> store" where
  "callTool render name args env st =
     (case handleTool name args env st of
        (Inr result, st') \<Rightarrow> (result, st')
      | (Inl (ZodError is), st') \<Rightarrow> (error (render is), st'))"

section \<open>Request adapter\<close>

text \<open>
  The handlers of \<^verbatim>\<open>server/http.ts\<close> that write to the store. \<^verbatim>\<open>parseBody\<close> either
  rejects with an error (\<open>Inl\<close> its message) or resolves with the parsed body, an object
  of the declared type whose properties may be absent. A response is the status code and
  the value sent as JSON.
\<close>

datatype responseBody =
    ErrorBody string
  | SessionBody Session
  | AnnotationBody "Annotation option"

type_synonym response = "nat \<times> responseBody"

definition sendError :: "nat \<Rightarrow> string \<Rightarrow> response" where
  "sendError code message = (code, ErrorBody message)"

record SessionRequest =
  r_url :: "string option"
  r_projectId :: "string option"

definition createSessionHandler :: "string + SessionRequest \<Rightarrow> entropy \<Rightarrow> string \<Rightarrow> store \<Rightarrow> response \<times> store" where
  "createSessionHandler parsed en tm st =
     (case parsed of
        Inl message \<Rightarrow> (sendError 400 message, st)
      | Inr body \<Rightarrow>
          (case r_url body of
             None \<Rightarrow> (sendError 400 ''url is required'', st)
           | Some url \<Rightarrow>
               if url = [] then (sendError 400 ''url is required'', st)
               else (case createSession url (r_projectId body) en tm st of
                       (session, st') \<Rightarrow> ((201, SessionBody session), st'))))"

definition bodyData :: "AnnotationPatch \<Rightarrow> string \<Rightarrow> string \<Rightarrow> string \<Rightarrow> AnnotationData" where
  "bodyData body c e ep =
     \<lparr>d_comment = c, d_element = e, d_elementPath = ep, d_url = p_url body,
      d_intent = p_intent body, d_severity = p_severity body, d_timestamp = p_timestamp body,
      d_nearbyText = p_nearbyText body, d_reactComponents = p_reactComponents body,
      d_updatedAt = p_updatedAt body, d_resolvedAt = p_resolvedAt body,
      d_resolvedBy = p_resolvedBy body, d_thread = p_thread body\<rparr>"

definition addAnnotationHandler :: "string \<Rightarrow> string + AnnotationPatch \<Rightarrow> entropy \<Rightarrow> string \<Rightarrow> store \<Rightarrow> response \<times> store" where
  "addAnnotationHandler i parsed en tm st =
     (case parsed of
        Inl message \<Rightarrow> (sendError 400 message, st)
      | Inr body \<Rightarrow>
          (case (p_comment body, p_element body, p_elementPath body) of
             (Some c, Some e, Some ep) \<Rightarrow>
               if c = [] \<or> e = [] \<or> ep = []
               then (sendError 400 ''comment, element, and elementPath are required'', st)
               else (case addAnnotation i (bodyData body c e ep) en tm st of
                       (None, st') \<Rightarrow> (sendError 404 ''Session not found'', st')
                     | (Some annotation, st') \<Rightarrow> ((201, AnnotationBody (Some annotation)), st'))
           | _ \<Rightarrow> (sendError 400 ''comment, element, and elementPath are required'', st)))"

definition updateAnnotationHandler :: "string \<Rightarrow> string + AnnotationPatch \<Rightarrow> string \<Rightarrow> store \<Rightarrow> response \<times> store" where
  "updateAnnotationHandler i parsed tm st =
     (case parsed of
        Inl message \<Rightarrow> (sendError 400 message, st)
      | Inr body \<Rightarrow>
          (case getAnnotation i st of
             None \<Rightarrow> (sendError 404 ''Annotation not found'', st)
           | Some existing \<Rightarrow>
               (case updateAnnotation i body tm st of
                  (annotation, st') \<Rightarrow> ((200, AnnotationBody annotation), st'))))"

section \<open>The scenario\<close>

text \<open>
  The store of the scenario: a session for \<^verbatim>\<open>http://x\<close>, and in it the annotation
  \<^verbatim>\<open>{comment: "fix button", element: "<button>", elementPath: "/div/button"}\<close>. The readings
  are a clock at 1730000000000 ms and two random draws.
\<close>

definition scenarioData :: AnnotationData where
  "scenarioData = \<lparr>d_comment = ''fix button'', d_element = ''<button>'',
     d_elementPath = ''/div/button'', d_url = None, d_intent = None, d_severity = None,
     d_timestamp = None, d_nearbyText = None, d_reactComponents = None, d_updatedAt = None,
     d_resolvedAt = None, d_resolvedBy = None, d_thread = None\<rparr>"

definition scenarioSession :: "Session \<times> store" where
  "scenarioSession =
     createSession ''http://x'' None (1730000000000, ''0.4fzyo82mvyr'') ''2024-10-27T03:33:20.000Z''
       emptyStore"

definition scenarioAnnotation :: "Annotation option \<times> store" where
  "scenarioAnnotation =
     addAnnotation (s_id (fst scenarioSession)) scenarioData (1730000000001, ''0.k3x9q0p7abc'')
       ''2024-10-27T03:33:20.001Z'' (snd scenarioSession)"

definition scenarioA1 :: Annotation where
  "scenarioA1 = \<lparr>a_id = ''m2r1bz7l-k3x9q0'', sessionId = ''m2r1bz7k-4fzyo8'',
     comment = ''fix button'', element = ''<button>'', elementPath = ''/div/button'',
     a_url = None, intent = None, severity = None, a_timestamp = None, nearbyText = None,
     reactComponents = None, status = Pending, createdAt = ''2024-10-27T03:33:20.001Z'',
     updatedAt = None, resolvedAt = None, resolvedBy = None, thread = None\<rparr>"

definition scenarioStore :: store where
  "scenarioStore = snd scenarioAnnotation"

definition scenarioEnv :: toolEnv where
  "scenarioEnv = \<lparr>tmUpdated = ''2024-10-27T03:33:20.002Z'', tmResolved = ''2024-10-27T03:33:20.003Z'',
     msgEntropy = (1730000000004, ''0.9d2hw1c5xyz''), msgNow = 1730000000004,
     tmThread = ''2024-10-27T03:33:20.005Z''\<rparr>"

text \<open>
  The two calls that build the store of the scenario, and the same followed by a second
  annotation of the session and by the resolution of the first.
\<close>

definition scenarioCalls :: "op list" where
  "scenarioCalls =
     [CreateSession ''http://x'' None (1730000000000, ''0.4fzyo82mvyr'') ''2024-10-27T03:33:20.000Z'',
      AddAnnotation ''m2r1bz7k-4fzyo8'' scenarioData (1730000000001, ''0.k3x9q0p7abc'')
        ''2024-10-27T03:33:20.001Z'']"

definition scenarioA2 :: Annotation where
  "scenarioA2 = scenarioA1\<lparr>a_id := ''m2r1bz7m-1b7x0c'', createdAt := ''2024-10-27T03:33:20.002Z''\<rparr>"

definition scenarioA1Resolved :: Annotation where
  "scenarioA1Resolved = scenarioA1\<lparr>status := Resolved,
     updatedAt := Some ''2024-10-27T03:33:20.003Z'', resolvedAt := Some ''2024-10-27T03:33:20.003Z'',
     resolvedBy := Some Agent\<rparr>"

definition pendingCalls :: "op list" where
  "pendingCalls = scenarioCalls @
     [AddAnnotation ''m2r1bz7k-4fzyo8'' scenarioData (1730000000002, ''0.1b7x0c9dabc'')
        ''2024-10-27T03:33:20.002Z'',
      UpdateAnnotationStatus ''m2r1bz7l-k3x9q0'' Resolved (Some Agent)
        ''2024-10-27T03:33:20.003Z'' ''2024-10-27T03:33:20.003Z'']"

text \<open>The names of the catalogue \<^verbatim>\<open>TOOLS\<close>.\<close>

definition toolNames :: "string list" where
  "toolNames = [''agentation_list_sessions'', ''agentation_get_session'',
     ''agentation_get_pending'', ''agentation_acknowledge'', ''agentation_resolve'',
     ''agentation_dismiss'', ''agentation_reply'']"

text \<open>
  The store of the scenario after \<^verbatim>\<open>PATCH /annotations/:id\<close> with the body
  \<^verbatim>\<open>{sessionId: "ghost"}\<close> on its annotation.
\<close>

definition ghostStore :: store where
  "ghostStore = snd (updateAnnotationHandler ''m2r1bz7l-k3x9q0''
     (Inr (emptyPatch\<lparr>p_sessionId := Some ''ghost''\<rparr>)) ''2024-10-27T03:33:20.002Z'' scenarioStore)"

text \<open>
  The store of the scenario after one message on the thread of its annotation, and a
  sequence of calls on the store of the scenario that keeps threads.
\<close>

definition threadStore :: store where
  "threadStore = snd (addThreadMessage ''m2r1bz7l-k3x9q0'' Human ''why?''
     (1730000000004, ''0.9d2hw1c5xyz'') 1730000000004 ''2024-10-27T03:33:20.005Z'' scenarioStore)"

definition threadCalls :: "op list" where
  "threadCalls =
     [AddThreadMessage ''m2r1bz7l-k3x9q0'' Human ''why?'' (1730000000004, ''0.9d2hw1c5xyz'')
        1730000000004 ''2024-10-27T03:33:20.005Z'',
      UpdateAnnotation ''m2r1bz7l-k3x9q0'' (emptyPatch\<lparr>p_comment := Some ''fix the button''\<rparr>)
        ''2024-10-27T03:33:20.006Z'',
      UpdateAnnotationStatus ''m2r1bz7l-k3x9q0'' Acknowledged None
        ''2024-10-27T03:33:20.007Z'' ''2024-10-27T03:33:20.007Z'',
      AddAnnotation ''m2r1bz7k-4fzyo8'' scenarioData (1730000000002, ''0.1b7x0c9dabc'')
        ''2024-10-27T03:33:20.008Z'']"

text \<open>
  The two forms of a \<^verbatim>\<open>ToolResult\<close>: one block of serialised data with \<^verbatim>\<open>isError\<close>
  absent, or one block of message text with \<^verbatim>\<open>isError\<close> true.
\<close>

definition shaped :: "ToolResult \<Rightarrow> bool" where
  "shaped r \<longleftrightarrow>
     (case content r of
        [Stringified d] \<Rightarrow> isError r = None
      | [Plain m] \<Rightarrow> isError r = Some True
      | _ \<Rightarrow> False)"

section \<open>Facts about the maps\<close>

lemma mapGet_mapSet_same: "mapGet (mapSet k v es) k = Some v"
  by (induction es) auto

lemma mapGet_mapSet_other: "k' \<noteq> k \<Longrightarrow> mapGet (mapSet k v es) k' = mapGet es k'"
  by (induction es) auto

lemma mapKeys_mapSet:
  "mapKeys (mapSet k v es) = (if k \<in> set (mapKeys es) then mapKeys es else mapKeys es @ [k])"
proof (induction es)
  case Nil
  show ?case by (simp add: mapKeys_def)
next
  case (Cons e es)
  obtain k' v' where e: "e = (k', v')" by (cases e)
  from Cons.IH show ?case by (simp add: e mapKeys_def)
qed

lemma distinct_mapKeys_mapSet: "distinct (mapKeys es) \<Longrightarrow> distinct (mapKeys (mapSet k v es))"
  by (simp add: mapKeys_mapSet)

lemma mapGet_None_iff: "mapGet es k = None \<longleftrightarrow> k \<notin> set (mapKeys es)"
proof (induction es)
  case Nil
  show ?case by (simp add: mapKeys_def)
next
  case (Cons e es)
  obtain k' v' where e: "e = (k', v')" by (cases e)
  from Cons.IH show ?case by (simp add: e mapKeys_def)
qed

lemma mapGet_Some_in_values: "mapGet es k = Some v \<Longrightarrow> v \<in> set (mapValues es)"
proof (induction es)
  case Nil
  then show ?case by simp
next
  case (Cons e es)
  obtain k' v' where e: "e = (k', v')" by (cases e)
  from Cons show ?case by (cases "k' = k") (simp_all add: e mapValues_def)
qed

lemma in_values_mapGet:
  "distinct (mapKeys es) \<Longrightarrow> v \<in> set (mapValues es) \<Longrightarrow> \<exists>k. mapGet es k = Some v"
proof (induction es)
  case Nil
  then show ?case by (simp add: mapValues_def)
next
  case (Cons e es)
  obtain k' v' where e: "e = (k', v')" by (cases e)
  show ?case
  proof (cases "v = v'")
    case True
    then have "mapGet (e # es) k' = Some v" by (simp add: e)
    then show ?thesis ..
  next
    case False
    with Cons.prems have "v \<in> set (mapValues es)" and d: "distinct (mapKeys es)"
      and n: "k' \<notin> set (mapKeys es)"
      by (simp_all add: e mapValues_def mapKeys_def)
    with Cons.IH obtain k where k: "mapGet es k = Some v" by blast
    then have "k \<in> set (mapKeys es)" using mapGet_None_iff [of es k] by simp
    with n have "k' \<noteq> k" by blast
    with k have "mapGet (e # es) k = Some v" by (simp add: e)
    then show ?thesis ..
  qed
qed

lemma values_mapSet_subset: "set (mapValues (mapSet k v es)) \<subseteq> insert v (set (mapValues es))"
proof (induction es)
  case Nil
  show ?case by (simp add: mapValues_def)
next
  case (Cons e es)
  obtain k' v' where e: "e = (k', v')" by (cases e)
  from Cons.IH show ?case by (cases "k' = k") (auto simp: e mapValues_def)
qed

section \<open>The scenario, evaluated\<close>

lemma generateId_scenario:
  "generateId (1730000000000, ''0.4fzyo82mvyr'') = ''m2r1bz7k-4fzyo8''"
  "generateId (1730000000001, ''0.k3x9q0p7abc'') = ''m2r1bz7l-k3x9q0''"
  "generateId (1730000000004, ''0.9d2hw1c5xyz'') = ''m2r1bz7o-9d2hw1''"
  by (simp_all add: generateId_def slice_def toString36.simps digit36_def digits36_def)

lemma generateId_second: "generateId (1730000000002, ''0.1b7x0c9dabc'') = ''m2r1bz7m-1b7x0c''"
  by (simp add: generateId_def slice_def toString36.simps digit36_def digits36_def)

lemma scenarioSession_eq:
  "scenarioSession =
     (\<lparr>s_id = ''m2r1bz7k-4fzyo8'', s_url = ''http://x'', s_status = Active,
       s_createdAt = ''2024-10-27T03:33:20.000Z'', s_updatedAt = None, s_projectId = None\<rparr>,
      \<lparr>sessions = [(''m2r1bz7k-4fzyo8'',
          \<lparr>s_id = ''m2r1bz7k-4fzyo8'', s_url = ''http://x'', s_status = Active,
           s_createdAt = ''2024-10-27T03:33:20.000Z'', s_updatedAt = None, s_projectId = None\<rparr>)],
       annotations = []\<rparr>)"
  by (simp add: scenarioSession_def createSession_def emptyStore_def generateId_scenario Let_def)

lemma scenarioAnnotation_eq:
  "scenarioAnnotation =
     (Some scenarioA1,
      \<lparr>sessions = [(''m2r1bz7k-4fzyo8'',
          \<lparr>s_id = ''m2r1bz7k-4fzyo8'', s_url = ''http://x'', s_status = Active,
           s_createdAt = ''2024-10-27T03:33:20.000Z'', s_updatedAt = None, s_projectId = None\<rparr>)],
       annotations = [(''m2r1bz7l-k3x9q0'', scenarioA1)]\<rparr>)"
  by (simp add: scenarioAnnotation_def scenarioSession_eq addAnnotation_def newAnnotation_def
      scenarioData_def scenarioA1_def generateId_scenario Let_def)

lemma scenarioStore_eq:
  "scenarioStore =
      \<lparr>sessions = [(''m2r1bz7k-4fzyo8'',
          \<lparr>s_id = ''m2r1bz7k-4fzyo8'', s_url = ''http://x'', s_status = Active,
           s_createdAt = ''2024-10-27T03:33:20.000Z'', s_updatedAt = None, s_projectId = None\<rparr>)],
       annotations = [(''m2r1bz7l-k3x9q0'', scenarioA1)]\<rparr>"
  by (simp add: scenarioStore_def scenarioAnnotation_eq)

section \<open>Claims on absent sessions and on reopening\<close>

text \<open>
  C3. Adding an annotation under a session id that the store does not have returns
  \<^verbatim>\<open>undefined\<close> and leaves the store as it was; the request handler then answers with an
  error (400 for a body it rejects, 404 otherwise) and leaves the store as it was.
\<close>

theorem addAnnotation_unknown_session:
  assumes "getSession sid st = None"
  shows "addAnnotation sid d en tm st = (None, st)
    \<and> (\<exists>code message. addAnnotationHandler sid parsed en tm st = ((code, ErrorBody message), st)
          \<and> (code = 400 \<or> code = 404))"
proof -
  from assms have g: "mapGet (sessions st) sid = None" by (simp add: getSession_def)
  then have a: "\<And>d'. addAnnotation sid d' en tm st = (None, st)" by (simp add: addAnnotation_def)
  have "\<exists>code message. addAnnotationHandler sid parsed en tm st = ((code, ErrorBody message), st)
          \<and> (code = 400 \<or> code = 404)"
    by (cases parsed) (auto simp: addAnnotationHandler_def sendError_def a split: option.splits)
  with a show ?thesis by simp
qed

theorem addAnnotation_unknown_session_witness:
  "getSession ''nope'' scenarioStore = None
   \<and> addAnnotation ''nope'' scenarioData (1730000000001, ''0.k3x9q0p7abc'') ''t'' scenarioStore
       = (None, scenarioStore)
   \<and> (\<exists>code message.
         addAnnotationHandler ''nope''
           (Inr (emptyPatch\<lparr>p_comment := Some ''c'', p_element := Some ''e'', p_elementPath := Some ''p''\<rparr>))
           (1730000000001, ''0.k3x9q0p7abc'') ''t'' scenarioStore
         = ((code, ErrorBody message), scenarioStore) \<and> (code = 400 \<or> code = 404))"
proof -
  have h: "getSession ''nope'' scenarioStore = None"
    by (simp add: getSession_def scenarioStore_eq)
  from addAnnotation_unknown_session [OF h] h show ?thesis by blast
qed

text \<open>
  C10. On an annotation that is resolved or dismissed, \<^verbatim>\<open>updateAnnotationStatus\<close> with
  \<^verbatim>\<open>pending\<close> or \<^verbatim>\<open>acknowledged\<close> returns the annotation with the new status and the
  new \<^verbatim>\<open>updatedAt\<close>, stores it, and leaves \<^verbatim>\<open>resolvedAt\<close> and \<^verbatim>\<open>resolvedBy\<close> as they
  were.
\<close>

theorem reopen_keeps_resolution:
  assumes "getAnnotation i st = Some a"
    and "status a = Resolved \<or> status a = Dismissed"
    and "status' = Pending \<or> status' = Acknowledged"
  shows "updateAnnotationStatus i status' who tmU tmR st =
           (Some (a\<lparr>status := status', updatedAt := Some tmU\<rparr>),
            putAnnotation i (a\<lparr>status := status', updatedAt := Some tmU\<rparr>) st)
    \<and> getAnnotation i (snd (updateAnnotationStatus i status' who tmU tmR st)) =
           Some (a\<lparr>status := status', updatedAt := Some tmU\<rparr>)
    \<and> resolvedAt (a\<lparr>status := status', updatedAt := Some tmU\<rparr>) = resolvedAt a
    \<and> resolvedBy (a\<lparr>status := status', updatedAt := Some tmU\<rparr>) = resolvedBy a"
proof -
  from assms(1) have g: "mapGet (annotations st) i = Some a" by (simp add: getAnnotation_def)
  from assms(3) have n: "\<not> (status' = Resolved \<or> status' = Dismissed)" by auto
  have u: "updateAnnotationStatus i status' who tmU tmR st =
           (Some (a\<lparr>status := status', updatedAt := Some tmU\<rparr>),
            putAnnotation i (a\<lparr>status := status', updatedAt := Some tmU\<rparr>) st)"
    using n by (simp add: updateAnnotationStatus_def g Let_def)
  show ?thesis
    by (simp add: u getAnnotation_def putAnnotation_def mapGet_mapSet_same)
qed

theorem reopen_keeps_resolution_witness:
  "getAnnotation ''m2r1bz7l-k3x9q0''
     (snd (updateAnnotationStatus ''m2r1bz7l-k3x9q0'' Resolved None ''t2'' ''t3'' scenarioStore))
     = Some (scenarioA1\<lparr>status := Resolved, updatedAt := Some ''t2'', resolvedAt := Some ''t3'',
               resolvedBy := Some Agent\<rparr>)
   \<and> getAnnotation ''m2r1bz7l-k3x9q0''
        (snd (updateAnnotationStatus ''m2r1bz7l-k3x9q0'' Pending None ''t4'' ''t5''
           (snd (updateAnnotationStatus ''m2r1bz7l-k3x9q0'' Resolved None ''t2'' ''t3'' scenarioStore))))
     = Some (scenarioA1\<lparr>status := Pending, updatedAt := Some ''t4'', resolvedAt := Some ''t3'',
               resolvedBy := Some Agent\<rparr>)"
proof -
  let ?st = "snd (updateAnnotationStatus ''m2r1bz7l-k3x9q0'' Resolved None ''t2'' ''t3'' scenarioStore)"
  let ?a = "scenarioA1\<lparr>status := Resolved, updatedAt := Some ''t2'', resolvedAt := Some ''t3'',
               resolvedBy := Some Agent\<rparr>"
  have h: "getAnnotation ''m2r1bz7l-k3x9q0'' ?st = Some ?a"
    by (simp add: getAnnotation_def updateAnnotationStatus_def putAnnotation_def scenarioStore_eq
        Let_def)
  have r: "status ?a = Resolved \<or> status ?a = Dismissed" by simp
  have p: "Pending = Pending \<or> Pending = Acknowledged" by simp
  note w = reopen_keeps_resolution [OF h r p, of None "''t4''" "''t5''"]
  from h w [THEN conjunct2, THEN conjunct1] show ?thesis by simp
qed

section \<open>Facts about the thread\<close>

lemma addThreadMessage_existing:
  assumes "getAnnotation i st = Some a"
  shows "addThreadMessage i r c en now tm st =
    (Some (a\<lparr>thread := Some (threadOf a @ [messageOf (r, c, en, now, tm)]), updatedAt := Some tm\<rparr>),
     putAnnotation i
       (a\<lparr>thread := Some (threadOf a @ [messageOf (r, c, en, now, tm)]), updatedAt := Some tm\<rparr>) st)"
  using assms
  by (simp add: addThreadMessage_def getAnnotation_def threadOf_def messageOf_def Let_def)

lemma getAnnotation_putAnnotation: "getAnnotation i (putAnnotation i a st) = Some a"
  by (simp add: getAnnotation_def putAnnotation_def mapGet_mapSet_same)

lemma addThreadMessages_thread:
  "getAnnotation i st = Some a \<Longrightarrow>
     \<exists>a'. getAnnotation i (addThreadMessages i cs st) = Some a'
        \<and> threadOf a' = threadOf a @ map messageOf cs"
proof (induction cs arbitrary: st a)
  case Nil
  then show ?case by simp
next
  case (Cons c cs)
  obtain r ct en now tm where c: "c = (r, ct, en, now, tm)" by (cases c)
  let ?a1 = "a\<lparr>thread := Some (threadOf a @ [messageOf c]), updatedAt := Some tm\<rparr>"
  let ?st1 = "putAnnotation i ?a1 st"
  have step: "snd (addThreadMessage i r ct en now tm st) = ?st1"
    using addThreadMessage_existing [OF Cons.prems] by (simp add: c)
  have g: "getAnnotation i ?st1 = Some ?a1" by (rule getAnnotation_putAnnotation)
  from Cons.IH [OF g] obtain a' where
    a': "getAnnotation i (addThreadMessages i cs ?st1) = Some a'"
    and t: "threadOf a' = threadOf ?a1 @ map messageOf cs" by blast
  have "threadOf ?a1 = threadOf a @ [messageOf c]" by (simp add: threadOf_def)
  with t have "threadOf a' = threadOf a @ map messageOf (c # cs)" by simp
  moreover from a' have "getAnnotation i (addThreadMessages i (c # cs) st) = Some a'"
    by (simp add: c step)
  ultimately show ?case by blast
qed

lemma getAnnotation_putAnnotation_other:
  "j \<noteq> i \<Longrightarrow> getAnnotation i (putAnnotation j b st) = getAnnotation i st"
  by (simp add: getAnnotation_def putAnnotation_def mapGet_mapSet_other)

lemma put_keeps_thread:
  assumes "getAnnotation i st = Some a"
    and "j = i \<Longrightarrow> threadOf b = threadOf a \<or> (\<exists>m. threadOf b = threadOf a @ [m])"
  shows "\<exists>a'. getAnnotation i (putAnnotation j b st) = Some a'
           \<and> (threadOf a' = threadOf a \<or> (\<exists>m. threadOf a' = threadOf a @ [m]))"
proof (cases "j = i")
  case True
  with assms(2) show ?thesis by (simp add: getAnnotation_putAnnotation)
next
  case False
  with assms(1) show ?thesis by (simp add: getAnnotation_putAnnotation_other)
qed

lemma exec_keeps_thread:
  assumes "getAnnotation i st = Some a" and "\<not> replacesThread c st"
  shows "\<exists>a'. getAnnotation i (exec c st) = Some a'
           \<and> (threadOf a' = threadOf a \<or> (\<exists>m. threadOf a' = threadOf a @ [m]))"
proof (cases c)
  case (CreateSession url projectId en tm)
  with assms(1) show ?thesis by (simp add: createSession_def getAnnotation_def Let_def)
next
  case (UpdateSessionStatus j status' tm)
  with assms(1) show ?thesis
    by (simp add: updateSessionStatus_def getAnnotation_def Let_def split: option.splits)
next
  case (AddAnnotation sid d en tm)
  show ?thesis
  proof (cases "mapGet (sessions st) sid")
    case None
    with assms(1) AddAnnotation show ?thesis by (simp add: addAnnotation_def)
  next
    case (Some session)
    with assms(2) AddAnnotation have free: "mapGet (annotations st) (generateId en) = None"
      by simp
    with assms(1) have "generateId en \<noteq> i" by (auto simp: getAnnotation_def)
    then have "getAnnotation i (putAnnotation (generateId en) (newAnnotation d (generateId en) sid tm) st)
        = getAnnotation i st" by (rule getAnnotation_putAnnotation_other)
    with assms(1) AddAnnotation Some show ?thesis
      by (simp add: addAnnotation_def newAnnotation_def putAnnotation_def Let_def)
  qed
next
  case (UpdateAnnotationStatus j status' who tmU tmR)
  show ?thesis
  proof (cases "getAnnotation j st")
    case None
    with assms(1) UpdateAnnotationStatus show ?thesis
      by (simp add: updateAnnotationStatus_def getAnnotation_def)
  next
    case (Some b)
    obtain b' where u: "updateAnnotationStatus j status' who tmU tmR st = (Some b', putAnnotation j b' st)"
      and t: "threadOf b' = threadOf b"
      using Some by (simp add: updateAnnotationStatus_def getAnnotation_def threadOf_def Let_def)
    have "j = i \<Longrightarrow> threadOf b' = threadOf a \<or> (\<exists>m. threadOf b' = threadOf a @ [m])"
      using Some assms(1) t by simp
    with assms(1) have "\<exists>a'. getAnnotation i (putAnnotation j b' st) = Some a'
           \<and> (threadOf a' = threadOf a \<or> (\<exists>m. threadOf a' = threadOf a @ [m]))"
      by (rule put_keeps_thread)
    with UpdateAnnotationStatus u show ?thesis by simp
  qed
next
  case (UpdateAnnotation j p tm)
  with assms(2) have np: "p_thread p = None" by simp
  show ?thesis
  proof (cases "getAnnotation j st")
    case None
    with assms(1) UpdateAnnotation show ?thesis
      by (simp add: updateAnnotation_def getAnnotation_def)
  next
    case (Some b)
    obtain b' where u: "updateAnnotation j p tm st = (Some b', putAnnotation j b' st)"
      and t: "threadOf b' = threadOf b"
      using Some np
      by (simp add: updateAnnotation_def getAnnotation_def objectAssign_def assignOpt_def
          threadOf_def Let_def)
    have "j = i \<Longrightarrow> threadOf b' = threadOf a \<or> (\<exists>m. threadOf b' = threadOf a @ [m])"
      using Some assms(1) t by simp
    with assms(1) have "\<exists>a'. getAnnotation i (putAnnotation j b' st) = Some a'
           \<and> (threadOf a' = threadOf a \<or> (\<exists>m. threadOf a' = threadOf a @ [m]))"
      by (rule put_keeps_thread)
    with UpdateAnnotation u show ?thesis by simp
  qed
next
  case (AddThreadMessage j role' content' en now tm)
  show ?thesis
  proof (cases "getAnnotation j st")
    case None
    with assms(1) AddThreadMessage show ?thesis
      by (simp add: addThreadMessage_def getAnnotation_def)
  next
    case (Some b)
    let ?b' = "b\<lparr>thread := Some (threadOf b @ [messageOf (role', content', en, now, tm)]),
                  updatedAt := Some tm\<rparr>"
    have u: "addThreadMessage j role' content' en now tm st = (Some ?b', putAnnotation j ?b' st)"
      using Some by (rule addThreadMessage_existing)
    have t: "threadOf ?b' = threadOf b @ [messageOf (role', content', en, now, tm)]"
      by (simp add: threadOf_def)
    have "j = i \<Longrightarrow> threadOf ?b' = threadOf a \<or> (\<exists>m. threadOf ?b' = threadOf a @ [m])"
      using Some assms(1) t by simp
    with assms(1) have "\<exists>a'. getAnnotation i (putAnnotation j ?b' st) = Some a'
           \<and> (threadOf a' = threadOf a \<or> (\<exists>m. threadOf a' = threadOf a @ [m]))"
      by (rule put_keeps_thread)
    with AddThreadMessage u show ?thesis by simp
  qed
next
  case ClearAll
  with assms(2) show ?thesis by simp
qed

lemma run_keeps_thread:
  "getAnnotation i st = Some a \<Longrightarrow> threadsKept cs st \<Longrightarrow>
     \<exists>a' ms. getAnnotation i (run cs st) = Some a' \<and> threadOf a' = threadOf a @ ms"
proof (induction cs arbitrary: st a)
  case Nil
  then show ?case by simp
next
  case (Cons c cs)
  from Cons.prems(2) have n: "\<not> replacesThread c st" and k: "threadsKept cs (exec c st)"
    by simp_all
  from exec_keeps_thread [OF Cons.prems(1) n] obtain a1 where
    g1: "getAnnotation i (exec c st) = Some a1"
    and t1: "threadOf a1 = threadOf a \<or> (\<exists>m. threadOf a1 = threadOf a @ [m])" by blast
  from Cons.IH [OF g1 k] obtain a' ms where
    g: "getAnnotation i (run cs (exec c st)) = Some a'"
    and t: "threadOf a' = threadOf a1 @ ms" by blast
  from t1 t have "\<exists>ms'. threadOf a' = threadOf a @ ms'" by auto
  with g show ?case by simp
qed

section \<open>Claims on the status and the thread\<close>

text \<open>
  C1, as the store has it. An annotation that \<^verbatim>\<open>addAnnotation\<close> returns has the status
  \<^verbatim>\<open>pending\<close> and is stored under its id. \<^verbatim>\<open>updateAnnotationStatus\<close> with \<^verbatim>\<open>resolved\<close> or
  \<^verbatim>\<open>dismissed\<close> on a stored annotation sets the status, \<^verbatim>\<open>resolvedAt\<close> and
  \<^verbatim>\<open>resolvedBy\<close>, the latter to \<^verbatim>\<open>agent\<close> when no \<^verbatim>\<open>resolvedBy\<close> is passed.
\<close>

theorem status_lifecycle:
  "(\<forall>a st'. addAnnotation sid d en tm st = (Some a, st') \<longrightarrow>
       status a = Pending \<and> getAnnotation (a_id a) st' = Some a)
   \<and> (\<forall>a0. getAnnotation i st2 = Some a0 \<and> (status' = Resolved \<or> status' = Dismissed) \<longrightarrow>
        (\<exists>a'. updateAnnotationStatus i status' who tmU tmR st2 = (Some a', putAnnotation i a' st2)
           \<and> getAnnotation i (putAnnotation i a' st2) = Some a'
           \<and> status a' = status' \<and> resolvedAt a' = Some tmR
           \<and> resolvedBy a' = Some (case who of None \<Rightarrow> Agent | Some r \<Rightarrow> r)))"
proof -
  have add: "\<forall>a st'. addAnnotation sid d en tm st = (Some a, st') \<longrightarrow>
       status a = Pending \<and> getAnnotation (a_id a) st' = Some a"
    by (auto simp: addAnnotation_def newAnnotation_def getAnnotation_def Let_def
        mapGet_mapSet_same split: option.splits)
  have upd: "\<forall>a0. getAnnotation i st2 = Some a0 \<and> (status' = Resolved \<or> status' = Dismissed) \<longrightarrow>
        (\<exists>a'. updateAnnotationStatus i status' who tmU tmR st2 = (Some a', putAnnotation i a' st2)
           \<and> getAnnotation i (putAnnotation i a' st2) = Some a'
           \<and> status a' = status' \<and> resolvedAt a' = Some tmR
           \<and> resolvedBy a' = Some (case who of None \<Rightarrow> Agent | Some r \<Rightarrow> r))"
    by (auto simp: updateAnnotationStatus_def getAnnotation_def putAnnotation_def Let_def
        mapGet_mapSet_same)
  from add upd show ?thesis by (rule conjI)
qed

theorem status_lifecycle_witness:
  "addAnnotation ''m2r1bz7k-4fzyo8'' scenarioData (1730000000001, ''0.k3x9q0p7abc'')
      ''2024-10-27T03:33:20.001Z'' (snd scenarioSession) = (Some scenarioA1, scenarioStore)
   \<and> status scenarioA1 = Pending
   \<and> getAnnotation ''m2r1bz7l-k3x9q0'' scenarioStore = Some scenarioA1
   \<and> (\<exists>a'. updateAnnotationStatus ''m2r1bz7l-k3x9q0'' Dismissed None ''t2'' ''t3'' scenarioStore
             = (Some a', putAnnotation ''m2r1bz7l-k3x9q0'' a' scenarioStore)
          \<and> status a' = Dismissed \<and> resolvedAt a' = Some ''t3'' \<and> resolvedBy a' = Some Agent)"
proof -
  have a: "addAnnotation ''m2r1bz7k-4fzyo8'' scenarioData (1730000000001, ''0.k3x9q0p7abc'')
      ''2024-10-27T03:33:20.001Z'' (snd scenarioSession) = (Some scenarioA1, scenarioStore)"
    using scenarioAnnotation_eq
    by (simp add: scenarioAnnotation_def scenarioSession_eq scenarioStore_eq)
  have g: "getAnnotation ''m2r1bz7l-k3x9q0'' scenarioStore = Some scenarioA1"
    by (simp add: getAnnotation_def scenarioStore_eq)
  note w = status_lifecycle [where sid = "''m2r1bz7k-4fzyo8''" and d = scenarioData
      and en = "(1730000000001, ''0.k3x9q0p7abc'')" and tm = "''2024-10-27T03:33:20.001Z''"
      and st = "snd scenarioSession" and i = "''m2r1bz7l-k3x9q0''" and ?st2.0 = scenarioStore
      and status' = Dismissed and who = None and tmU = "''t2''" and tmR = "''t3''"]
  from w a have "status scenarioA1 = Pending" by blast
  moreover from w g have "\<exists>a'. updateAnnotationStatus ''m2r1bz7l-k3x9q0'' Dismissed None ''t2'' ''t3'' scenarioStore
             = (Some a', putAnnotation ''m2r1bz7l-k3x9q0'' a' scenarioStore)
          \<and> status a' = Dismissed \<and> resolvedAt a' = Some ''t3'' \<and> resolvedBy a' = Some Agent"
    by auto
  ultimately show ?thesis using a g by simp
qed

text \<open>
  C1 as stated speaks of every store operation. \<^verbatim>\<open>updateAnnotation\<close> takes \<^verbatim>\<open>status\<close> among
  the properties it merges: on the annotation of the scenario the patch
  \<^verbatim>\<open>{status: "resolved"}\<close> makes the status \<^verbatim>\<open>resolved\<close> and sets neither \<^verbatim>\<open>resolvedAt\<close>
  nor \<^verbatim>\<open>resolvedBy\<close>.
\<close>

theorem status_without_stamp_counterexample:
  "\<not> (\<forall>a'. fst (updateAnnotation ''m2r1bz7l-k3x9q0'' (emptyPatch\<lparr>p_status := Some Resolved\<rparr>)
                    ''2024-10-27T03:33:20.002Z'' scenarioStore) = Some a'
          \<and> status a' = Resolved \<longrightarrow> resolvedAt a' \<noteq> None \<and> resolvedBy a' \<noteq> None)"
  by (simp add: updateAnnotation_def objectAssign_def assign_def assignOpt_def emptyPatch_def
      putAnnotation_def scenarioStore_eq scenarioA1_def Let_def)

text \<open>
  C2, as the store has it. After a sequence of \<^verbatim>\<open>addThreadMessage\<close> calls on a stored
  annotation its thread is the thread it had, followed by the messages of the calls in
  call order; when the thread was absent or empty, its length is the number of calls.
  \<^verbatim>\<open>updateAnnotationStatus\<close> leaves the thread as it is. Every store call other than a
  partial update with the property \<^verbatim>\<open>thread\<close>, an \<^verbatim>\<open>addAnnotation\<close> that reuses a key, and
  \<^verbatim>\<open>clearAll\<close> leaves the annotation stored with the thread it had, or with that thread
  and one more message at its end; after any sequence of such calls the thread it had is
  still there, in place, at the start of its thread.
\<close>

theorem thread_appends_in_call_order:
  assumes "getAnnotation i st = Some a"
  shows "(\<exists>a'. getAnnotation i (addThreadMessages i cs st) = Some a'
            \<and> threadOf a' = threadOf a @ map messageOf cs
            \<and> (threadOf a = [] \<longrightarrow> length (threadOf a') = length cs))
     \<and> (\<exists>a'. updateAnnotationStatus i status' who tmU tmR st = (Some a', putAnnotation i a' st)
            \<and> thread a' = thread a)
     \<and> (\<not> replacesThread c st \<longrightarrow>
          (\<exists>a'. getAnnotation i (exec c st) = Some a'
             \<and> (threadOf a' = threadOf a \<or> (\<exists>m. threadOf a' = threadOf a @ [m]))))
     \<and> (threadsKept ops st \<longrightarrow>
          (\<exists>a' ms. getAnnotation i (run ops st) = Some a' \<and> threadOf a' = threadOf a @ ms))"
proof -
  from addThreadMessages_thread [OF assms] obtain a' where
    "getAnnotation i (addThreadMessages i cs st) = Some a'"
    "threadOf a' = threadOf a @ map messageOf cs" by blast
  then have 1: "\<exists>a'. getAnnotation i (addThreadMessages i cs st) = Some a'
            \<and> threadOf a' = threadOf a @ map messageOf cs
            \<and> (threadOf a = [] \<longrightarrow> length (threadOf a') = length cs)" by auto
  from assms have 2: "\<exists>a'. updateAnnotationStatus i status' who tmU tmR st = (Some a', putAnnotation i a' st)
            \<and> thread a' = thread a"
    by (simp add: updateAnnotationStatus_def getAnnotation_def Let_def)
  have 3: "\<not> replacesThread c st \<longrightarrow>
          (\<exists>a'. getAnnotation i (exec c st) = Some a'
             \<and> (threadOf a' = threadOf a \<or> (\<exists>m. threadOf a' = threadOf a @ [m])))"
    using exec_keeps_thread [OF assms] by blast
  have 4: "threadsKept ops st \<longrightarrow>
          (\<exists>a' ms. getAnnotation i (run ops st) = Some a' \<and> threadOf a' = threadOf a @ ms)"
    using run_keeps_thread [OF assms] by blast
  from 1 2 3 4 show ?thesis by (intro conjI)
qed

theorem thread_appends_in_call_order_witness:
  "getAnnotation ''m2r1bz7l-k3x9q0'' scenarioStore = Some scenarioA1
   \<and> threadOf scenarioA1 = []
   \<and> \<not> replacesThread (AddThreadMessage ''m2r1bz7l-k3x9q0'' Agent ''on it''
           (1730000000004, ''0.9d2hw1c5xyz'') 1730000000004 ''t4'') scenarioStore
   \<and> threadsKept threadCalls scenarioStore
   \<and> (\<exists>a'. getAnnotation ''m2r1bz7l-k3x9q0''
              (addThreadMessages ''m2r1bz7l-k3x9q0''
                 [(Human, ''why?'', (1730000000004, ''0.9d2hw1c5xyz''), 1730000000004, ''t4''),
                  (Agent, ''because'', (1730000000006, ''0.77q2k8n1abc''), 1730000000006, ''t6'')]
                 scenarioStore) = Some a'
          \<and> map (\<lambda>m. (m_role m, m_content m)) (threadOf a') = [(Human, ''why?''), (Agent, ''because'')]
          \<and> length (threadOf a') = 2)
   \<and> (\<exists>a'. getAnnotation ''m2r1bz7l-k3x9q0''
              (exec (AddThreadMessage ''m2r1bz7l-k3x9q0'' Agent ''on it''
                 (1730000000004, ''0.9d2hw1c5xyz'') 1730000000004 ''t4'') scenarioStore) = Some a'
          \<and> (threadOf a' = threadOf scenarioA1 \<or> (\<exists>m. threadOf a' = threadOf scenarioA1 @ [m])))
   \<and> (\<exists>a' ms. getAnnotation ''m2r1bz7l-k3x9q0'' (run threadCalls scenarioStore) = Some a'
          \<and> threadOf a' = threadOf scenarioA1 @ ms)"
proof -
  have g: "getAnnotation ''m2r1bz7l-k3x9q0'' scenarioStore = Some scenarioA1"
    by (simp add: getAnnotation_def scenarioStore_eq)
  have e: "threadOf scenarioA1 = []" by (simp add: threadOf_def scenarioA1_def)
  have n: "\<not> replacesThread (AddThreadMessage ''m2r1bz7l-k3x9q0'' Agent ''on it''
           (1730000000004, ''0.9d2hw1c5xyz'') 1730000000004 ''t4'') scenarioStore" by simp
  have k: "threadsKept threadCalls scenarioStore"
    by (simp add: threadCalls_def scenarioStore_eq addThreadMessage_def updateAnnotation_def
        updateAnnotationStatus_def putAnnotation_def emptyPatch_def generateId_second Let_def)
  note w = thread_appends_in_call_order [OF g,
      where cs = "[(Human, ''why?'', (1730000000004, ''0.9d2hw1c5xyz''), 1730000000004, ''t4''),
                   (Agent, ''because'', (1730000000006, ''0.77q2k8n1abc''), 1730000000006, ''t6'')]"
        and status' = Pending and who = None and tmU = "''t''" and tmR = "''t''"
        and c = "AddThreadMessage ''m2r1bz7l-k3x9q0'' Agent ''on it''
                   (1730000000004, ''0.9d2hw1c5xyz'') 1730000000004 ''t4''"
        and ops = threadCalls]
  from w [THEN conjunct1] e have 1: "\<exists>a'. getAnnotation ''m2r1bz7l-k3x9q0''
              (addThreadMessages ''m2r1bz7l-k3x9q0''
                 [(Human, ''why?'', (1730000000004, ''0.9d2hw1c5xyz''), 1730000000004, ''t4''),
                  (Agent, ''because'', (1730000000006, ''0.77q2k8n1abc''), 1730000000006, ''t6'')]
                 scenarioStore) = Some a'
          \<and> map (\<lambda>m. (m_role m, m_content m)) (threadOf a') = [(Human, ''why?''), (Agent, ''because'')]
          \<and> length (threadOf a') = 2"
    by (auto simp: messageOf_def)
  from w [THEN conjunct2, THEN conjunct2, THEN conjunct1] n
  have 3: "\<exists>a'. getAnnotation ''m2r1bz7l-k3x9q0''
              (exec (AddThreadMessage ''m2r1bz7l-k3x9q0'' Agent ''on it''
                 (1730000000004, ''0.9d2hw1c5xyz'') 1730000000004 ''t4'') scenarioStore) = Some a'
          \<and> (threadOf a' = threadOf scenarioA1 \<or> (\<exists>m. threadOf a' = threadOf scenarioA1 @ [m]))"
    by (rule mp)
  from w [THEN conjunct2, THEN conjunct2, THEN conjunct2] k
  have 4: "\<exists>a' ms. getAnnotation ''m2r1bz7l-k3x9q0'' (run threadCalls scenarioStore) = Some a'
          \<and> threadOf a' = threadOf scenarioA1 @ ms"
    by (rule mp)
  from g e n k 1 3 4 show ?thesis by (intro conjI)
qed

text \<open>
  C2 as stated says that no operation removes thread entries. Three do. After one
  message is appended to the annotation of the scenario: the partial update
  \<^verbatim>\<open>{thread: []}\<close> leaves an empty thread (\<^verbatim>\<open>updateAnnotation\<close> takes \<^verbatim>\<open>thread\<close> among the
  properties it merges); an \<^verbatim>\<open>addAnnotation\<close> in the millisecond of the first, with a draw
  of the same six characters, stores a new annotation under the same key, with no thread;
  \<^verbatim>\<open>clearAll\<close> leaves no annotation.
\<close>

theorem thread_replaced_counterexample:
  "(\<exists>a. getAnnotation ''m2r1bz7l-k3x9q0'' threadStore = Some a \<and> length (threadOf a) = 1)
   \<and> (\<exists>a. getAnnotation ''m2r1bz7l-k3x9q0''
           (snd (updateAnnotation ''m2r1bz7l-k3x9q0'' (emptyPatch\<lparr>p_thread := Some []\<rparr>) ''t5''
              threadStore)) = Some a
        \<and> threadOf a = [])
   \<and> (\<exists>a. getAnnotation ''m2r1bz7l-k3x9q0''
           (snd (addAnnotation ''m2r1bz7k-4fzyo8'' scenarioData (1730000000001, ''0.k3x9q0zzzzz'')
              ''t6'' threadStore)) = Some a
        \<and> threadOf a = [])
   \<and> getAnnotation ''m2r1bz7l-k3x9q0'' (clearAll threadStore) = None"
  by (simp add: threadStore_def addThreadMessage_def updateAnnotation_def objectAssign_def
      assign_def assignOpt_def emptyPatch_def addAnnotation_def newAnnotation_def scenarioData_def
      clearAll_def putAnnotation_def getAnnotation_def threadOf_def scenarioStore_eq
      scenarioA1_def generateId_def slice_def toString36.simps digit36_def digits36_def Let_def)

text \<open>
  C5. From any store: create a session for \<^verbatim>\<open>http://x\<close>, add the annotation of the
  scenario to it, and call the resolve tool on the annotation with the summary
  \<^verbatim>\<open>done\<close>. The annotation is created \<^verbatim>\<open>pending\<close>; the tool succeeds and leaves it
  \<^verbatim>\<open>resolved\<close> by \<^verbatim>\<open>agent\<close>, with a thread of one message, of role \<^verbatim>\<open>agent\<close> and
  content \<^verbatim>\<open>Resolved: done\<close>. This holds for all readings of the clock and the random
  number generator.
\<close>

theorem resolve_scenario:
  "case createSession ''http://x'' projectId en1 tm1 st0 of
     (session, st1) \<Rightarrow>
       (case addAnnotation (s_id session) scenarioData en2 tm2 st1 of
          (None, st2) \<Rightarrow> False
        | (Some a1, st2) \<Rightarrow>
            status a1 = Pending
            \<and> (case callTool render ''agentation_resolve''
                        (JObj [(''annotationId'', JStr (a_id a1)), (''summary'', JStr ''done'')])
                        env st2 of
                 (result, st3) \<Rightarrow>
                   result = \<lparr>content = [Stringified (JObj [(''resolved'', JBool True),
                                           (''annotationId'', JStr (a_id a1)),
                                           (''summary'', JStr ''done'')])], isError = None\<rparr>
                   \<and> (case getAnnotation (a_id a1) st3 of
                        None \<Rightarrow> False
                      | Some a \<Rightarrow>
                          status a = Resolved \<and> resolvedBy a = Some Agent
                          \<and> map (\<lambda>m. (m_role m, m_content m)) (threadOf a)
                              = [(Agent, ''Resolved: done'')])))"
  by (simp add: createSession_def addAnnotation_def newAnnotation_def scenarioData_def
      callTool_def handleTool_def ResolveSchema_def parse2_def property_def
      updateAnnotationStatus_def addThreadMessage_def putAnnotation_def getAnnotation_def
      optStr_def success_def threadOf_def mapGet_mapSet_same Let_def)

section \<open>Claims on the partial update\<close>

text \<open>
  A patch of the declared parameter type of \<^verbatim>\<open>updateAnnotation\<close> leaves \<^verbatim>\<open>id\<close>,
  \<^verbatim>\<open>sessionId\<close> and \<^verbatim>\<open>createdAt\<close> as they are and sets \<^verbatim>\<open>updatedAt\<close>.
\<close>

lemma updateAnnotation_frame:
  assumes "getAnnotation i st = Some a" and "omitsIdentity p"
  shows "\<exists>a'. updateAnnotation i p tm st = (Some a', putAnnotation i a' st)
     \<and> a_id a' = a_id a \<and> sessionId a' = sessionId a \<and> createdAt a' = createdAt a
     \<and> updatedAt a' = Some tm"
  using assms
  by (simp add: updateAnnotation_def getAnnotation_def omitsIdentity_def objectAssign_def
      assign_def Let_def)

text \<open>
  C8. \<^verbatim>\<open>PATCH /annotations/:id\<close> parses its body as \<^verbatim>\<open>Partial<Annotation>\<close> and passes
  it to \<^verbatim>\<open>updateAnnotation\<close> as it is. With the body
  \<^verbatim>\<open>{id: "other", sessionId: "ghost", createdAt: "1970-01-01T00:00:00.000Z"}\<close> the handler
  answers 200 and the stored annotation has the three values of the body, under the key
  it had.
\<close>

theorem patch_overwrites_identity:
  "updateAnnotationHandler ''m2r1bz7l-k3x9q0''
     (Inr (emptyPatch\<lparr>p_id := Some ''other'', p_sessionId := Some ''ghost'',
                        p_createdAt := Some ''1970-01-01T00:00:00.000Z''\<rparr>))
     ''2024-10-27T03:33:20.002Z'' scenarioStore =
   ((200, AnnotationBody (Some (scenarioA1\<lparr>a_id := ''other'', sessionId := ''ghost'',
        createdAt := ''1970-01-01T00:00:00.000Z'', updatedAt := Some ''2024-10-27T03:33:20.002Z''\<rparr>))),
    scenarioStore\<lparr>annotations := [(''m2r1bz7l-k3x9q0'', scenarioA1\<lparr>a_id := ''other'',
        sessionId := ''ghost'', createdAt := ''1970-01-01T00:00:00.000Z'',
        updatedAt := Some ''2024-10-27T03:33:20.002Z''\<rparr>)]\<rparr>)"
  by (simp add: updateAnnotationHandler_def updateAnnotation_def getAnnotation_def
      objectAssign_def assign_def assignOpt_def emptyPatch_def putAnnotation_def scenarioStore_eq
      scenarioA1_def Let_def)

section \<open>Facts about identifiers\<close>

lemma distinct_digits36: "distinct digits36"
  by (simp add: digits36_def)

lemma length_digits36: "length digits36 = 36"
  by (simp add: digits36_def)

lemma digit36_inj:
  assumes "a < 36" and "b < 36" and "digit36 a = digit36 b"
  shows "a = b"
  using assms distinct_digits36 nth_eq_iff_index_eq [of digits36 a b]
  by (simp add: digit36_def length_digits36)

lemma digit36_no_dash: "d < 36 \<Longrightarrow> digit36 d \<noteq> CHR ''-''"
proof -
  assume "d < 36"
  then have "digit36 d \<in> set digits36"
    by (simp add: digit36_def length_digits36)
  moreover have "CHR ''-'' \<notin> set digits36" by (simp add: digits36_def)
  ultimately show ?thesis by auto
qed

lemma toString36_nonempty: "toString36 n \<noteq> []"
  by (subst toString36.simps) simp

lemma dash_notin_toString36: "CHR ''-'' \<notin> set (toString36 n)"
proof (induction n rule: toString36.induct)
  case (1 n)
  show ?case
  proof (cases "n < 36")
    case True
    then show ?thesis
      using digit36_no_dash [of n] by (subst toString36.simps) auto
  next
    case False
    have "n mod 36 < 36" by simp
    then have "digit36 (n mod 36) \<noteq> CHR ''-''" by (rule digit36_no_dash)
    with False "1.IH" show ?thesis
      by (subst toString36.simps) auto
  qed
qed

lemma toString36_inj: "toString36 a = toString36 b \<Longrightarrow> a = b"
proof (induction a arbitrary: b rule: toString36.induct)
  case (1 n)
  show ?case
  proof (cases "n < 36")
    case small: True
    then have n: "toString36 n = [digit36 n]" by (subst toString36.simps) simp
    show ?thesis
    proof (cases "b < 36")
      case True
      then have "toString36 b = [digit36 b]" by (subst toString36.simps) simp
      with n "1.prems" have "digit36 n = digit36 b" by simp
      with small True show ?thesis by (rule digit36_inj)
    next
      case False
      then have "toString36 b = toString36 (b div 36) @ [digit36 (b mod 36)]"
        by (subst toString36.simps) simp
      with n "1.prems" have "toString36 (b div 36) = []" by simp
      with toString36_nonempty show ?thesis by blast
    qed
  next
    case big: False
    then have n: "toString36 n = toString36 (n div 36) @ [digit36 (n mod 36)]"
      by (subst toString36.simps) simp
    show ?thesis
    proof (cases "b < 36")
      case True
      then have "toString36 b = [digit36 b]" by (subst toString36.simps) simp
      with n "1.prems" have "toString36 (n div 36) = []" by simp
      with toString36_nonempty show ?thesis by blast
    next
      case False
      then have "toString36 b = toString36 (b div 36) @ [digit36 (b mod 36)]"
        by (subst toString36.simps) simp
      with n "1.prems" have p: "toString36 (n div 36) = toString36 (b div 36)"
        and d: "digit36 (n mod 36) = digit36 (b mod 36)" by simp_all
      from "1.IH" [OF big p] have q: "n div 36 = b div 36" .
      have "n mod 36 < 36" and "b mod 36 < 36" by simp_all
      from this d have r: "n mod 36 = b mod 36" by (rule digit36_inj)
      have "n = 36 * (n div 36) + n mod 36" by simp
      also have "\<dots> = 36 * (b div 36) + b mod 36" by (simp only: q r)
      also have "\<dots> = b" by simp
      finally show ?thesis .
    qed
  qed
qed

lemma split_at_separator:
  "c \<notin> set xs \<Longrightarrow> c \<notin> set xs' \<Longrightarrow> xs @ c # ys = xs' @ c # ys' \<Longrightarrow> xs = xs' \<and> ys = ys'"
proof (induction xs arbitrary: xs')
  case Nil
  then show ?case by (cases xs') auto
next
  case (Cons x xs)
  then show ?case by (cases xs') auto
qed

lemma generateId_eq_iff:
  "generateId en = generateId en' \<longleftrightarrow>
     fst en = fst en' \<and> slice 2 8 (snd en) = slice 2 8 (snd en')"
proof
  assume "generateId en = generateId en'"
  then have "toString36 (fst en) @ CHR ''-'' # slice 2 8 (snd en)
        = toString36 (fst en') @ CHR ''-'' # slice 2 8 (snd en')"
    by (simp add: generateId_def)
  then have "toString36 (fst en) = toString36 (fst en')
      \<and> slice 2 8 (snd en) = slice 2 8 (snd en')"
    by (rule split_at_separator [OF dash_notin_toString36 dash_notin_toString36])
  then show "fst en = fst en' \<and> slice 2 8 (snd en) = slice 2 8 (snd en')"
    by (auto dest: toString36_inj)
next
  assume "fst en = fst en' \<and> slice 2 8 (snd en) = slice 2 8 (snd en')"
  then show "generateId en = generateId en'" by (simp add: generateId_def)
qed

section \<open>Claims on session creation\<close>

text \<open>
  C6, as the store has it. \<^verbatim>\<open>createSession\<close> returns a session with the status
  \<^verbatim>\<open>active\<close> and the id that \<^verbatim>\<open>generateId\<close> builds from the clock and the random draw,
  and stores it under that id; \<^verbatim>\<open>POST /sessions\<close> with a non-empty \<^verbatim>\<open>url\<close> answers 201
  with that session. The id differs from every id built from another clock reading or
  from a draw with other characters at positions 2 to 7.
\<close>

theorem createSession_active_and_id:
  "s_status (fst (createSession url projectId en tm st)) = Active
   \<and> s_id (fst (createSession url projectId en tm st)) = generateId en
   \<and> getSession (generateId en) (snd (createSession url projectId en tm st))
       = Some (fst (createSession url projectId en tm st))
   \<and> (url \<noteq> [] \<longrightarrow>
        createSessionHandler (Inr \<lparr>r_url = Some url, r_projectId = projectId\<rparr>) en tm st
          = ((201, SessionBody (fst (createSession url projectId en tm st))),
             snd (createSession url projectId en tm st)))
   \<and> (\<forall>en'. fst en' \<noteq> fst en \<or> slice 2 8 (snd en') \<noteq> slice 2 8 (snd en) \<longrightarrow>
         generateId en' \<noteq> s_id (fst (createSession url projectId en tm st)))"
proof -
  have i: "s_id (fst (createSession url projectId en tm st)) = generateId en"
    by (simp add: createSession_def Let_def)
  have a: "s_status (fst (createSession url projectId en tm st)) = Active"
    by (simp add: createSession_def Let_def)
  have g: "getSession (generateId en) (snd (createSession url projectId en tm st))
       = Some (fst (createSession url projectId en tm st))"
    by (simp add: createSession_def getSession_def mapGet_mapSet_same Let_def)
  have h: "url \<noteq> [] \<longrightarrow>
        createSessionHandler (Inr \<lparr>r_url = Some url, r_projectId = projectId\<rparr>) en tm st
          = ((201, SessionBody (fst (createSession url projectId en tm st))),
             snd (createSession url projectId en tm st))"
    by (simp add: createSessionHandler_def split: prod.splits)
  have u: "\<forall>en'. fst en' \<noteq> fst en \<or> slice 2 8 (snd en') \<noteq> slice 2 8 (snd en) \<longrightarrow>
         generateId en' \<noteq> s_id (fst (createSession url projectId en tm st))"
    using generateId_eq_iff by (auto simp: i)
  from a i g h u show ?thesis by blast
qed

theorem createSession_active_and_id_witness:
  "s_status (fst scenarioSession) = Active
   \<and> s_id (fst scenarioSession) = ''m2r1bz7k-4fzyo8''
   \<and> createSessionHandler (Inr \<lparr>r_url = Some ''http://x'', r_projectId = None\<rparr>)
        (1730000000000, ''0.4fzyo82mvyr'') ''2024-10-27T03:33:20.000Z'' emptyStore
        = ((201, SessionBody (fst scenarioSession)), snd scenarioSession)
   \<and> generateId (1730000000001, ''0.4fzyo82mvyr'') \<noteq> s_id (fst scenarioSession)"
proof -
  note w = createSession_active_and_id [of "''http://x''" None "(1730000000000, ''0.4fzyo82mvyr'')"
      "''2024-10-27T03:33:20.000Z''" emptyStore]
  have n: "''http://x'' \<noteq> []" by simp
  have d: "fst (1730000000001::nat, ''0.4fzyo82mvyr'') \<noteq> fst (1730000000000::nat, ''0.4fzyo82mvyr'')"
    by simp
  from w d have "generateId (1730000000001, ''0.4fzyo82mvyr'')
      \<noteq> s_id (fst (createSession ''http://x'' None (1730000000000, ''0.4fzyo82mvyr'')
            ''2024-10-27T03:33:20.000Z'' emptyStore))" by blast
  moreover from w n have "createSessionHandler (Inr \<lparr>r_url = Some ''http://x'', r_projectId = None\<rparr>)
        (1730000000000, ''0.4fzyo82mvyr'') ''2024-10-27T03:33:20.000Z'' emptyStore
        = ((201, SessionBody (fst (createSession ''http://x'' None (1730000000000, ''0.4fzyo82mvyr'')
            ''2024-10-27T03:33:20.000Z'' emptyStore))),
           snd (createSession ''http://x'' None (1730000000000, ''0.4fzyo82mvyr'')
            ''2024-10-27T03:33:20.000Z'' emptyStore))" by blast
  ultimately show ?thesis
    by (simp add: scenarioSession_def [symmetric]) (simp add: scenarioSession_eq)
qed

text \<open>
  C6 as stated makes the id differ from every earlier one. Nothing in \<^verbatim>\<open>generateId\<close> or
  \<^verbatim>\<open>createSession\<close> looks at the ids in use: a second creation in the same millisecond
  whose draw has the same six characters gets the id of the first session, and
  \<^verbatim>\<open>sessions.set\<close> replaces that session.
\<close>

theorem session_id_collision_counterexample:
  "s_id (fst (createSession ''http://y'' None (1730000000000, ''0.4fzyo8zzzzz'')
                ''2024-10-27T03:33:20.000Z'' (snd scenarioSession)))
     = s_id (fst scenarioSession)
   \<and> listSessions (snd scenarioSession) = [fst scenarioSession]
   \<and> map s_url (listSessions (snd (createSession ''http://y'' None (1730000000000, ''0.4fzyo8zzzzz'')
                ''2024-10-27T03:33:20.000Z'' (snd scenarioSession)))) = [''http://y'']"
  by (simp add: scenarioSession_eq createSession_def listSessions_def mapValues_def
      generateId_def slice_def toString36.simps digit36_def digits36_def Let_def)

section \<open>Invariants of the store\<close>

lemma distinct_keys_put:
  "distinct (mapKeys (annotations st)) \<Longrightarrow> distinct (mapKeys (annotations (putAnnotation k a st)))"
  by (simp add: putAnnotation_def distinct_mapKeys_mapSet)

lemma distinct_keys_exec:
  assumes "distinct (mapKeys (annotations st))"
  shows "distinct (mapKeys (annotations (exec c st)))"
proof (cases c)
  case (CreateSession url projectId en tm)
  with assms show ?thesis by (simp add: createSession_def Let_def)
next
  case (UpdateSessionStatus i status' tm)
  with assms show ?thesis by (simp add: updateSessionStatus_def Let_def split: option.splits)
next
  case (AddAnnotation sid d en tm)
  with assms show ?thesis
    by (simp add: addAnnotation_def Let_def distinct_mapKeys_mapSet split: option.splits)
next
  case (UpdateAnnotationStatus i status' who tmU tmR)
  with assms show ?thesis
    by (cases "mapGet (annotations st) i")
      (simp_all add: updateAnnotationStatus_def Let_def distinct_keys_put)
next
  case (UpdateAnnotation i p tm)
  with assms show ?thesis
    by (cases "mapGet (annotations st) i")
      (simp_all add: updateAnnotation_def Let_def distinct_keys_put)
next
  case (AddThreadMessage i role' content' en now tm)
  with assms show ?thesis
    by (cases "mapGet (annotations st) i")
      (simp_all add: addThreadMessage_def Let_def distinct_keys_put)
next
  case ClearAll
  then show ?thesis by (simp add: clearAll_def mapKeys_def)
qed

lemma distinct_keys_run:
  "distinct (mapKeys (annotations st)) \<Longrightarrow> distinct (mapKeys (annotations (run cs st)))"
  by (induction cs arbitrary: st) (simp_all add: distinct_keys_exec)

lemma stored_iff_listed:
  assumes "distinct (mapKeys es)"
  shows "v \<in> set (mapValues es) \<longleftrightarrow> (\<exists>k. mapGet es k = Some v)"
proof
  assume "v \<in> set (mapValues es)"
  with assms show "\<exists>k. mapGet es k = Some v" by (rule in_values_mapGet)
next
  assume "\<exists>k. mapGet es k = Some v"
  then obtain k where "mapGet es k = Some v" ..
  then show "v \<in> set (mapValues es)" by (rule mapGet_Some_in_values)
qed

lemma mapGet_mapSet_keeps: "mapGet es k' \<noteq> None \<Longrightarrow> mapGet (mapSet k v es) k' \<noteq> None"
  by (cases "k' = k") (simp_all add: mapGet_mapSet_same mapGet_mapSet_other)

lemma sessionsExist_iff:
  "sessionsExist st \<longleftrightarrow>
     (\<forall>a \<in> set (mapValues (annotations st)). mapGet (sessions st) (sessionId a) \<noteq> None)"
  by (simp add: sessionsExist_def list_all_iff)

lemma sessionsExist_put:
  assumes "sessionsExist st" and "mapGet (sessions st) (sessionId a) \<noteq> None"
  shows "sessionsExist (putAnnotation k a st)"
proof -
  have "set (mapValues (annotations (putAnnotation k a st)))
      \<subseteq> insert a (set (mapValues (annotations st)))"
    by (simp add: putAnnotation_def values_mapSet_subset)
  moreover have "sessions (putAnnotation k a st) = sessions st" by (simp add: putAnnotation_def)
  ultimately show ?thesis using assms by (auto simp: sessionsExist_iff)
qed

lemma sessionsExist_stored:
  "sessionsExist st \<Longrightarrow> mapGet (annotations st) k = Some a \<Longrightarrow>
     mapGet (sessions st) (sessionId a) \<noteq> None"
  using mapGet_Some_in_values [of "annotations st" k a] by (auto simp: sessionsExist_iff)

lemma sessionsExist_sessions_set:
  assumes "sessionsExist st"
  shows "sessionsExist (st\<lparr>sessions := mapSet k v (sessions st)\<rparr>)"
  using assms by (auto simp: sessionsExist_iff mapGet_mapSet_keeps)

lemma sessionsExist_exec:
  assumes "sessionsExist st" and "typed c"
  shows "sessionsExist (exec c st)"
proof (cases c)
  case (CreateSession url projectId en tm)
  with assms(1) show ?thesis
    by (simp add: createSession_def Let_def sessionsExist_sessions_set)
next
  case (UpdateSessionStatus i status' tm)
  with assms(1) show ?thesis
    by (simp add: updateSessionStatus_def Let_def sessionsExist_sessions_set split: option.splits)
next
  case (AddAnnotation sid d en tm)
  show ?thesis
  proof (cases "mapGet (sessions st) sid")
    case None
    with assms(1) AddAnnotation show ?thesis by (simp add: addAnnotation_def)
  next
    case (Some session)
    let ?a = "newAnnotation d (generateId en) sid tm"
    have "mapGet (sessions st) (sessionId ?a) \<noteq> None" using Some by (simp add: newAnnotation_def)
    with assms(1) have "sessionsExist (putAnnotation (a_id ?a) ?a st)" by (rule sessionsExist_put)
    with AddAnnotation Some show ?thesis
      by (simp add: addAnnotation_def putAnnotation_def Let_def)
  qed
next
  case (UpdateAnnotationStatus i status' who tmU tmR)
  show ?thesis
  proof (cases "mapGet (annotations st) i")
    case None
    with assms(1) UpdateAnnotationStatus show ?thesis by (simp add: updateAnnotationStatus_def)
  next
    case (Some a)
    from assms(1) Some have s: "mapGet (sessions st) (sessionId a) \<noteq> None"
      by (rule sessionsExist_stored)
    obtain a' where u: "updateAnnotationStatus i status' who tmU tmR st = (Some a', putAnnotation i a' st)"
      and e: "sessionId a' = sessionId a"
      using Some by (simp add: updateAnnotationStatus_def Let_def)
    from s e have "mapGet (sessions st) (sessionId a') \<noteq> None" by simp
    with assms(1) have "sessionsExist (putAnnotation i a' st)" by (rule sessionsExist_put)
    with UpdateAnnotationStatus u show ?thesis by simp
  qed
next
  case (UpdateAnnotation i p tm)
  show ?thesis
  proof (cases "mapGet (annotations st) i")
    case None
    with assms(1) UpdateAnnotation show ?thesis by (simp add: updateAnnotation_def)
  next
    case (Some a)
    from assms(1) Some have s: "mapGet (sessions st) (sessionId a) \<noteq> None"
      by (rule sessionsExist_stored)
    from assms(2) UpdateAnnotation have t: "omitsIdentity p" by simp
    obtain a' where u: "updateAnnotation i p tm st = (Some a', putAnnotation i a' st)"
      and e: "sessionId a' = sessionId a"
      using Some t
      by (simp add: updateAnnotation_def omitsIdentity_def objectAssign_def assign_def Let_def)
    from s e have "mapGet (sessions st) (sessionId a') \<noteq> None" by simp
    with assms(1) have "sessionsExist (putAnnotation i a' st)" by (rule sessionsExist_put)
    with UpdateAnnotation u show ?thesis by simp
  qed
next
  case (AddThreadMessage i role' content' en now tm)
  show ?thesis
  proof (cases "mapGet (annotations st) i")
    case None
    with assms(1) AddThreadMessage show ?thesis by (simp add: addThreadMessage_def)
  next
    case (Some a)
    from assms(1) Some have s: "mapGet (sessions st) (sessionId a) \<noteq> None"
      by (rule sessionsExist_stored)
    obtain a' where u: "addThreadMessage i role' content' en now tm st = (Some a', putAnnotation i a' st)"
      and e: "sessionId a' = sessionId a"
      using Some by (simp add: addThreadMessage_def Let_def)
    from s e have "mapGet (sessions st) (sessionId a') \<noteq> None" by simp
    with assms(1) have "sessionsExist (putAnnotation i a' st)" by (rule sessionsExist_put)
    with AddThreadMessage u show ?thesis by simp
  qed
next
  case ClearAll
  then show ?thesis by (simp add: clearAll_def sessionsExist_def mapValues_def)
qed

lemma sessionsExist_run:
  "sessionsExist st \<Longrightarrow> list_all typed cs \<Longrightarrow> sessionsExist (run cs st)"
  by (induction cs arbitrary: st) (simp_all add: sessionsExist_exec)

lemma no_pending_without_session:
  assumes "sessionsExist st" and "getSession sid st = None"
  shows "getPendingAnnotations sid st = []"
proof -
  from assms have "\<forall>a \<in> set (mapValues (annotations st)). sessionId a \<noteq> sid"
    by (auto simp: sessionsExist_iff getSession_def)
  then show ?thesis by (auto simp: getPendingAnnotations_def filter_empty_conv)
qed

lemma run_scenarioCalls: "run scenarioCalls emptyStore = scenarioStore"
proof -
  have "run scenarioCalls emptyStore = snd (addAnnotation ''m2r1bz7k-4fzyo8'' scenarioData
      (1730000000001, ''0.k3x9q0p7abc'') ''2024-10-27T03:33:20.001Z'' (snd scenarioSession))"
    by (simp add: scenarioCalls_def scenarioSession_def)
  also have "\<dots> = scenarioStore"
    using scenarioAnnotation_eq
    by (simp add: scenarioAnnotation_def scenarioSession_eq scenarioStore_eq)
  finally show ?thesis .
qed

lemma run_pendingCalls:
  "run pendingCalls emptyStore =
     scenarioStore\<lparr>annotations := [(''m2r1bz7l-k3x9q0'', scenarioA1Resolved),
                                     (''m2r1bz7m-1b7x0c'', scenarioA2)]\<rparr>"
proof -
  have "run pendingCalls emptyStore =
      run [AddAnnotation ''m2r1bz7k-4fzyo8'' scenarioData (1730000000002, ''0.1b7x0c9dabc'')
             ''2024-10-27T03:33:20.002Z'',
           UpdateAnnotationStatus ''m2r1bz7l-k3x9q0'' Resolved (Some Agent)
             ''2024-10-27T03:33:20.003Z'' ''2024-10-27T03:33:20.003Z''] scenarioStore"
    using run_scenarioCalls by (simp add: pendingCalls_def scenarioCalls_def)
  also have "\<dots> = scenarioStore\<lparr>annotations := [(''m2r1bz7l-k3x9q0'', scenarioA1Resolved),
                                     (''m2r1bz7m-1b7x0c'', scenarioA2)]\<rparr>"
    by (simp add: scenarioStore_eq addAnnotation_def newAnnotation_def scenarioData_def
        updateAnnotationStatus_def putAnnotation_def generateId_second scenarioA1_def
        scenarioA2_def scenarioA1Resolved_def Let_def)
  finally show ?thesis .
qed

section \<open>Claims on the pending annotations\<close>

text \<open>
  C4. In every store that a sequence of store calls (additions, status updates and the
  other operations, in any order) builds from the empty store, an annotation is in the
  result of \<^verbatim>\<open>getPendingAnnotations(sessionId)\<close> exactly when it is stored, its
  \<^verbatim>\<open>sessionId\<close> is the given one and its status is \<^verbatim>\<open>pending\<close>.
\<close>

theorem pending_exactly:
  "a \<in> set (getPendingAnnotations sid (run cs emptyStore)) \<longleftrightarrow>
     (\<exists>k. getAnnotation k (run cs emptyStore) = Some a) \<and> sessionId a = sid \<and> status a = Pending"
proof -
  have "distinct (mapKeys (annotations emptyStore))" by (simp add: emptyStore_def mapKeys_def)
  then have d: "distinct (mapKeys (annotations (run cs emptyStore)))" by (rule distinct_keys_run)
  show ?thesis
    by (simp add: getPendingAnnotations_def getAnnotation_def stored_iff_listed [OF d])
qed

theorem pending_exactly_witness:
  "scenarioA2 \<in> set (getPendingAnnotations ''m2r1bz7k-4fzyo8'' (run pendingCalls emptyStore))
   \<and> scenarioA1Resolved \<notin> set (getPendingAnnotations ''m2r1bz7k-4fzyo8'' (run pendingCalls emptyStore))
   \<and> getAnnotation ''m2r1bz7l-k3x9q0'' (run pendingCalls emptyStore) = Some scenarioA1Resolved"
proof -
  have g2: "getAnnotation ''m2r1bz7m-1b7x0c'' (run pendingCalls emptyStore) = Some scenarioA2"
    by (simp add: run_pendingCalls getAnnotation_def)
  have g1: "getAnnotation ''m2r1bz7l-k3x9q0'' (run pendingCalls emptyStore) = Some scenarioA1Resolved"
    by (simp add: run_pendingCalls getAnnotation_def)
  have p2: "sessionId scenarioA2 = ''m2r1bz7k-4fzyo8'' \<and> status scenarioA2 = Pending"
    by (simp add: scenarioA2_def scenarioA1_def)
  have p1: "status scenarioA1Resolved \<noteq> Pending" by (simp add: scenarioA1Resolved_def)
  from g2 p2 have "scenarioA2 \<in> set (getPendingAnnotations ''m2r1bz7k-4fzyo8'' (run pendingCalls emptyStore))"
    using pending_exactly [of scenarioA2 "''m2r1bz7k-4fzyo8''" pendingCalls] by blast
  moreover from p1 have "scenarioA1Resolved \<notin> set (getPendingAnnotations ''m2r1bz7k-4fzyo8'' (run pendingCalls emptyStore))"
    using pending_exactly [of scenarioA1Resolved "''m2r1bz7k-4fzyo8''" pendingCalls] by blast
  ultimately show ?thesis using g1 by simp
qed

lemma schema_nope:
  "GetPendingSchema (JObj [(''sessionId'', JStr ''nope'')]) = Inr ''nope''"
  "GetSessionSchema (JObj [(''sessionId'', JStr ''nope'')]) = Inr ''nope''"
  "AcknowledgeSchema (JObj [(''annotationId'', JStr ''nope'')]) = Inr ''nope''"
  "ResolveSchema (JObj [(''annotationId'', JStr ''nope'')]) = Inr (''nope'', None)"
  "DismissSchema (JObj [(''annotationId'', JStr ''nope''), (''reason'', JStr ''no'')]) = Inr (''nope'', ''no'')"
  "ReplySchema (JObj [(''annotationId'', JStr ''nope''), (''message'', JStr ''hi'')]) = Inr (''nope'', ''hi'')"
  by (simp_all add: GetPendingSchema_def GetSessionSchema_def AcknowledgeSchema_def
      ResolveSchema_def DismissSchema_def ReplySchema_def parse1_def parse2_def property_def)

text \<open>
  In every store that a sequence of store calls with arguments of the declared types
  builds from the empty store, \<^verbatim>\<open>getPendingAnnotations\<close> for a session id that the store
  does not have returns the empty list, and the \<^verbatim>\<open>agentation_get_pending\<close> tool returns
  the success payload with \<^verbatim>\<open>count\<close> 0 and no annotations, leaving the store as it is.
  In any store at all the tool returns a success payload, never an error one: the count
  and the summaries of what \<^verbatim>\<open>getPendingAnnotations\<close> lists.
\<close>

lemma pending_of_unknown_session_typed:
  assumes "list_all typed cs"
    and "getSession sid (run cs emptyStore) = None"
    and "GetPendingSchema args = Inr sid"
  shows "getPendingAnnotations sid (run cs emptyStore) = []
    \<and> callTool render ''agentation_get_pending'' args env (run cs emptyStore)
        = (\<lparr>content = [Stringified (JObj [(''count'', JNum 0), (''annotations'', JArr [])])],
            isError = None\<rparr>, run cs emptyStore)
    \<and> (\<forall>st. callTool render ''agentation_get_pending'' args env st
          = (\<lparr>content = [Stringified
                (JObj [(''count'', JNum (int (length (getPendingAnnotations sid st)))),
                       (''annotations'', JArr (map pendingSummary (getPendingAnnotations sid st)))])],
              isError = None\<rparr>, st))"
proof -
  have "sessionsExist emptyStore" by (simp add: sessionsExist_def emptyStore_def mapValues_def)
  then have "sessionsExist (run cs emptyStore)" using assms(1) by (rule sessionsExist_run)
  then have p: "getPendingAnnotations sid (run cs emptyStore) = []"
    using assms(2) by (rule no_pending_without_session)
  then show ?thesis
    by (simp add: callTool_def handleTool_def success_def assms(3) Let_def)
qed

lemma pending_of_unknown_session_typed_example:
  "list_all typed scenarioCalls
   \<and> getSession ''nope'' (run scenarioCalls emptyStore) = None
   \<and> getPendingAnnotations ''nope'' (run scenarioCalls emptyStore) = []
   \<and> callTool (\<lambda>iss. ''invalid arguments'') ''agentation_get_pending''
        (JObj [(''sessionId'', JStr ''nope'')]) scenarioEnv (run scenarioCalls emptyStore)
      = (\<lparr>content = [Stringified (JObj [(''count'', JNum 0), (''annotations'', JArr [])])],
          isError = None\<rparr>, run scenarioCalls emptyStore)"
proof -
  have t: "list_all typed scenarioCalls" by (simp add: scenarioCalls_def)
  have g: "getSession ''nope'' (run scenarioCalls emptyStore) = None"
    by (simp add: run_scenarioCalls scenarioStore_eq getSession_def)
  from pending_of_unknown_session_typed [OF t g schema_nope(1)] t g show ?thesis by simp
qed

text \<open>
  C9. \<^verbatim>\<open>getPendingAnnotations\<close> does not look the session up; it lists the annotations
  whose \<^verbatim>\<open>sessionId\<close> is the given one. \<^verbatim>\<open>PATCH /annotations/:id\<close> hands its body to
  \<^verbatim>\<open>updateAnnotation\<close> as it is, \<^verbatim>\<open>sessionId\<close> included. After the body
  \<^verbatim>\<open>{sessionId: "ghost"}\<close> on the annotation of the scenario the store has no session
  \<^verbatim>\<open>ghost\<close>, yet \<^verbatim>\<open>getPendingAnnotations("ghost")\<close> lists the annotation and the
  \<^verbatim>\<open>agentation_get_pending\<close> tool answers with \<^verbatim>\<open>count\<close> 1.
\<close>

theorem pending_of_absent_session_after_patch:
  "getSession ''ghost'' ghostStore = None
   \<and> getPendingAnnotations ''ghost'' ghostStore
       = [scenarioA1\<lparr>sessionId := ''ghost'', updatedAt := Some ''2024-10-27T03:33:20.002Z''\<rparr>]
   \<and> callTool (\<lambda>iss. ''invalid arguments'') ''agentation_get_pending''
        (JObj [(''sessionId'', JStr ''ghost'')]) scenarioEnv ghostStore
      = (\<lparr>content = [Stringified (JObj [(''count'', JNum 1), (''annotations'',
            JArr [pendingSummary (scenarioA1\<lparr>sessionId := ''ghost'',
                    updatedAt := Some ''2024-10-27T03:33:20.002Z''\<rparr>)])])],
          isError = None\<rparr>, ghostStore)"
proof -
  have g: "ghostStore = scenarioStore\<lparr>annotations := [(''m2r1bz7l-k3x9q0'',
      scenarioA1\<lparr>sessionId := ''ghost'', updatedAt := Some ''2024-10-27T03:33:20.002Z''\<rparr>)]\<rparr>"
    by (simp add: ghostStore_def updateAnnotationHandler_def updateAnnotation_def
        getAnnotation_def objectAssign_def assign_def assignOpt_def emptyPatch_def
        putAnnotation_def scenarioStore_eq scenarioA1_def Let_def)
  have s: "getSession ''ghost'' ghostStore = None"
    by (simp add: g getSession_def scenarioStore_eq)
  have p: "getPendingAnnotations ''ghost'' ghostStore
       = [scenarioA1\<lparr>sessionId := ''ghost'', updatedAt := Some ''2024-10-27T03:33:20.002Z''\<rparr>]"
    by (simp add: g getPendingAnnotations_def mapValues_def scenarioA1_def)
  have "callTool (\<lambda>iss. ''invalid arguments'') ''agentation_get_pending''
        (JObj [(''sessionId'', JStr ''ghost'')]) scenarioEnv ghostStore
      = (\<lparr>content = [Stringified (JObj [(''count'', JNum 1), (''annotations'',
            JArr [pendingSummary (scenarioA1\<lparr>sessionId := ''ghost'',
                    updatedAt := Some ''2024-10-27T03:33:20.002Z''\<rparr>)])])],
          isError = None\<rparr>, ghostStore)"
    by (simp add: callTool_def handleTool_def GetPendingSchema_def parse1_def property_def
        success_def p Let_def)
  with s p show ?thesis by simp
qed

section \<open>Claims on the tool adapter\<close>

lemma tool_name_cases:
  obtains (list_sessions) "name = ''agentation_list_sessions''"
  | (get_session) "name = ''agentation_get_session''"
  | (get_pending) "name = ''agentation_get_pending''"
  | (acknowledge) "name = ''agentation_acknowledge''"
  | (resolve) "name = ''agentation_resolve''"
  | (dismiss) "name = ''agentation_dismiss''"
  | (reply) "name = ''agentation_reply''"
  | (unknown) "handleTool name args env st = (Inr (error (''Unknown tool: '' @ name)), st)"
proof -
  have "name = ''agentation_list_sessions'' \<or> name = ''agentation_get_session''
      \<or> name = ''agentation_get_pending'' \<or> name = ''agentation_acknowledge''
      \<or> name = ''agentation_resolve'' \<or> name = ''agentation_dismiss''
      \<or> name = ''agentation_reply''
      \<or> handleTool name args env st = (Inr (error (''Unknown tool: '' @ name)), st)"
    unfolding handleTool_def by (simp only: if_False if_True split: if_split) simp
  then show ?thesis
  proof (elim disjE)
    assume "name = ''agentation_list_sessions''" then show ?thesis by (rule list_sessions)
  next
    assume "name = ''agentation_get_session''" then show ?thesis by (rule get_session)
  next
    assume "name = ''agentation_get_pending''" then show ?thesis by (rule get_pending)
  next
    assume "name = ''agentation_acknowledge''" then show ?thesis by (rule acknowledge)
  next
    assume "name = ''agentation_resolve''" then show ?thesis by (rule resolve)
  next
    assume "name = ''agentation_dismiss''" then show ?thesis by (rule dismiss)
  next
    assume "name = ''agentation_reply''" then show ?thesis by (rule reply)
  next
    assume "handleTool name args env st = (Inr (error (''Unknown tool: '' @ name)), st)"
    then show ?thesis by (rule unknown)
  qed
qed

lemma shaped_success: "shaped (success d)"
  by (simp add: shaped_def success_def)

lemma shaped_forms:
  assumes "shaped r"
  shows "(\<exists>d. r = \<lparr>content = [Stringified d], isError = None\<rparr>)
    \<or> (\<exists>m. r = \<lparr>content = [Plain m], isError = Some True\<rparr>)"
  using assms by (cases r) (auto simp: shaped_def split: list.splits textBlock.splits)

lemma shaped_error: "shaped (error m)"
  by (simp add: shaped_def error_def)

lemma handleTool_outcome:
  "(\<exists>e. handleTool name args env st = (Inl e, st))
   \<or> (\<exists>r st'. handleTool name args env st = (Inr r, st') \<and> shaped r)"
proof (cases rule: tool_name_cases [where name = name and args = args and env = env and st = st])
  case list_sessions
  then show ?thesis by (simp add: handleTool_def shaped_success)
next
  case get_session
  then show ?thesis
    by (cases "GetSessionSchema args")
      (simp_all add: handleTool_def shaped_success shaped_error split: option.splits)
next
  case get_pending
  then show ?thesis
    by (cases "GetPendingSchema args") (simp_all add: handleTool_def shaped_success Let_def)
next
  case acknowledge
  then show ?thesis
    by (cases "AcknowledgeSchema args")
      (simp_all add: handleTool_def shaped_success shaped_error split: option.splits prod.splits)
next
  case resolve
  then show ?thesis
    by (cases "ResolveSchema args")
      (simp_all add: handleTool_def shaped_success shaped_error Let_def
        split: option.splits prod.splits)
next
  case dismiss
  then show ?thesis
    by (cases "DismissSchema args")
      (simp_all add: handleTool_def shaped_success shaped_error Let_def
        split: option.splits prod.splits)
next
  case reply
  then show ?thesis
    by (cases "ReplySchema args")
      (simp_all add: handleTool_def shaped_success shaped_error Let_def
        split: option.splits prod.splits)
next
  case unknown
  then show ?thesis by (simp add: shaped_error)
qed

lemma updateAnnotationStatus_absent:
  "getAnnotation i st = None \<Longrightarrow> updateAnnotationStatus i status' who tmU tmR st = (None, st)"
  by (simp add: updateAnnotationStatus_def getAnnotation_def)

text \<open>
  C7. For every tool name and every argument value the tool-call handler returns a
  result, in one of two forms: one block of serialised data with \<^verbatim>\<open>isError\<close> absent, or
  one block of message text with \<^verbatim>\<open>isError\<close> true. What \<^verbatim>\<open>handleTool\<close> throws on
  arguments that fail the schema becomes the result with the message of the exception as
  its text and \<^verbatim>\<open>isError\<close> true, and the store stays as it was. A name outside the
  catalogue gives the text \<^verbatim>\<open>Unknown tool: \<close> with the name and \<^verbatim>\<open>isError\<close> true. Each
  store lookup that finds nothing (the session of \<^verbatim>\<open>agentation_get_session\<close>, the
  annotation of \<^verbatim>\<open>agentation_acknowledge\<close>, \<^verbatim>\<open>agentation_resolve\<close>,
  \<^verbatim>\<open>agentation_dismiss\<close> and \<^verbatim>\<open>agentation_reply\<close>) gives a text naming the id, with
  \<^verbatim>\<open>isError\<close> true, and the store stays as it was.
\<close>

theorem callTool_returns_result:
  "((\<exists>d. fst (callTool render name args env st) = \<lparr>content = [Stringified d], isError = None\<rparr>)
      \<or> (\<exists>m. fst (callTool render name args env st) = \<lparr>content = [Plain m], isError = Some True\<rparr>))
   \<and> (\<forall>iss. fst (handleTool name args env st) = Inl (ZodError iss) \<longrightarrow>
          callTool render name args env st
            = (\<lparr>content = [Plain (render iss)], isError = Some True\<rparr>, st))
   \<and> (other \<notin> set toolNames \<longrightarrow>
          callTool render other argsU env st
            = (\<lparr>content = [Plain (''Unknown tool: '' @ other)], isError = Some True\<rparr>, st))
   \<and> (\<forall>sid. GetSessionSchema argsS = Inr sid \<and> getSession sid st = None \<longrightarrow>
          callTool render ''agentation_get_session'' argsS env st
            = (\<lparr>content = [Plain (''Session not found: '' @ sid)], isError = Some True\<rparr>, st))
   \<and> (\<forall>aid. AcknowledgeSchema argsA = Inr aid \<and> getAnnotation aid st = None \<longrightarrow>
          callTool render ''agentation_acknowledge'' argsA env st
            = (\<lparr>content = [Plain (''Annotation not found: '' @ aid)], isError = Some True\<rparr>, st))
   \<and> (\<forall>aid summary. ResolveSchema argsR = Inr (aid, summary) \<and> getAnnotation aid st = None \<longrightarrow>
          callTool render ''agentation_resolve'' argsR env st
            = (\<lparr>content = [Plain (''Annotation not found: '' @ aid)], isError = Some True\<rparr>, st))
   \<and> (\<forall>aid reason. DismissSchema argsD = Inr (aid, reason) \<and> getAnnotation aid st = None \<longrightarrow>
          callTool render ''agentation_dismiss'' argsD env st
            = (\<lparr>content = [Plain (''Annotation not found: '' @ aid)], isError = Some True\<rparr>, st))
   \<and> (\<forall>aid message. ReplySchema argsP = Inr (aid, message) \<and> getAnnotation aid st = None \<longrightarrow>
          callTool render ''agentation_reply'' argsP env st
            = (\<lparr>content = [Plain (''Annotation not found: '' @ aid)], isError = Some True\<rparr>, st))"
proof -
  have shape: "(\<exists>d. fst (callTool render name args env st) = \<lparr>content = [Stringified d], isError = None\<rparr>)
      \<or> (\<exists>m. fst (callTool render name args env st) = \<lparr>content = [Plain m], isError = Some True\<rparr>)"
    using handleTool_outcome [of name args env st]
  proof (elim disjE exE conjE)
    fix e assume "handleTool name args env st = (Inl e, st)"
    then show ?thesis by (cases e) (simp add: callTool_def error_def)
  next
    fix r st' assume h: "handleTool name args env st = (Inr r, st')" and "shaped r"
    from this(2) have "(\<exists>d. r = \<lparr>content = [Stringified d], isError = None\<rparr>)
        \<or> (\<exists>m. r = \<lparr>content = [Plain m], isError = Some True\<rparr>)" by (rule shaped_forms)
    with h show ?thesis by (simp add: callTool_def)
  qed
  have thrown: "\<forall>iss. fst (handleTool name args env st) = Inl (ZodError iss) \<longrightarrow>
          callTool render name args env st
            = (\<lparr>content = [Plain (render iss)], isError = Some True\<rparr>, st)"
    using handleTool_outcome [of name args env st] by (auto simp: callTool_def error_def)
  have u: "other \<notin> set toolNames \<longrightarrow>
          callTool render other argsU env st
            = (\<lparr>content = [Plain (''Unknown tool: '' @ other)], isError = Some True\<rparr>, st)"
    by (simp add: toolNames_def callTool_def handleTool_def error_def)
  have s: "\<forall>sid. GetSessionSchema argsS = Inr sid \<and> getSession sid st = None \<longrightarrow>
          callTool render ''agentation_get_session'' argsS env st
            = (\<lparr>content = [Plain (''Session not found: '' @ sid)], isError = Some True\<rparr>, st)"
    by (simp add: callTool_def handleTool_def getSessionWithAnnotations_def getSession_def
        error_def)
  have a: "\<forall>aid. AcknowledgeSchema argsA = Inr aid \<and> getAnnotation aid st = None \<longrightarrow>
          callTool render ''agentation_acknowledge'' argsA env st
            = (\<lparr>content = [Plain (''Annotation not found: '' @ aid)], isError = Some True\<rparr>, st)"
    by (simp add: callTool_def handleTool_def updateAnnotationStatus_absent error_def)
  have r: "\<forall>aid summary. ResolveSchema argsR = Inr (aid, summary) \<and> getAnnotation aid st = None \<longrightarrow>
          callTool render ''agentation_resolve'' argsR env st
            = (\<lparr>content = [Plain (''Annotation not found: '' @ aid)], isError = Some True\<rparr>, st)"
    by (simp add: callTool_def handleTool_def updateAnnotationStatus_absent error_def)
  have d: "\<forall>aid reason. DismissSchema argsD = Inr (aid, reason) \<and> getAnnotation aid st = None \<longrightarrow>
          callTool render ''agentation_dismiss'' argsD env st
            = (\<lparr>content = [Plain (''Annotation not found: '' @ aid)], isError = Some True\<rparr>, st)"
    by (simp add: callTool_def handleTool_def updateAnnotationStatus_absent error_def)
  have p: "\<forall>aid message. ReplySchema argsP = Inr (aid, message) \<and> getAnnotation aid st = None \<longrightarrow>
          callTool render ''agentation_reply'' argsP env st
            = (\<lparr>content = [Plain (''Annotation not found: '' @ aid)], isError = Some True\<rparr>, st)"
    by (simp add: callTool_def handleTool_def error_def)
  from shape thrown u s a r d p show ?thesis by (intro conjI)
qed

theorem callTool_returns_result_witness:
  "fst (handleTool ''agentation_resolve'' (JObj [(''annotationId'', JNum 3)]) scenarioEnv scenarioStore)
     = Inl (ZodError [InvalidType [''annotationId''] ''string'' ''number''])
   \<and> callTool (\<lambda>iss. ''invalid arguments'') ''agentation_resolve'' (JObj [(''annotationId'', JNum 3)])
        scenarioEnv scenarioStore
      = (\<lparr>content = [Plain ''invalid arguments''], isError = Some True\<rparr>, scenarioStore)
   \<and> ''agentation_delete'' \<notin> set toolNames
   \<and> callTool (\<lambda>iss. ''invalid arguments'') ''agentation_delete'' JUndefined scenarioEnv scenarioStore
      = (\<lparr>content = [Plain ''Unknown tool: agentation_delete''], isError = Some True\<rparr>, scenarioStore)
   \<and> getSession ''nope'' scenarioStore = None \<and> getAnnotation ''nope'' scenarioStore = None
   \<and> callTool (\<lambda>iss. ''invalid arguments'') ''agentation_get_session''
        (JObj [(''sessionId'', JStr ''nope'')]) scenarioEnv scenarioStore
      = (\<lparr>content = [Plain ''Session not found: nope''], isError = Some True\<rparr>, scenarioStore)
   \<and> callTool (\<lambda>iss. ''invalid arguments'') ''agentation_acknowledge''
        (JObj [(''annotationId'', JStr ''nope'')]) scenarioEnv scenarioStore
      = (\<lparr>content = [Plain ''Annotation not found: nope''], isError = Some True\<rparr>, scenarioStore)
   \<and> callTool (\<lambda>iss. ''invalid arguments'') ''agentation_resolve''
        (JObj [(''annotationId'', JStr ''nope'')]) scenarioEnv scenarioStore
      = (\<lparr>content = [Plain ''Annotation not found: nope''], isError = Some True\<rparr>, scenarioStore)
   \<and> callTool (\<lambda>iss. ''invalid arguments'') ''agentation_dismiss''
        (JObj [(''annotationId'', JStr ''nope''), (''reason'', JStr ''no'')]) scenarioEnv scenarioStore
      = (\<lparr>content = [Plain ''Annotation not found: nope''], isError = Some True\<rparr>, scenarioStore)
   \<and> callTool (\<lambda>iss. ''invalid arguments'') ''agentation_reply''
        (JObj [(''annotationId'', JStr ''nope''), (''message'', JStr ''hi'')]) scenarioEnv scenarioStore
      = (\<lparr>content = [Plain ''Annotation not found: nope''], isError = Some True\<rparr>, scenarioStore)"
proof -
  note w = callTool_returns_result [where render = "\<lambda>iss. ''invalid arguments''"
      and name = "''agentation_resolve''" and args = "JObj [(''annotationId'', JNum 3)]"
      and env = scenarioEnv and st = scenarioStore
      and other = "''agentation_delete''" and argsU = JUndefined
      and argsS = "JObj [(''sessionId'', JStr ''nope'')]"
      and argsA = "JObj [(''annotationId'', JStr ''nope'')]"
      and argsR = "JObj [(''annotationId'', JStr ''nope'')]"
      and argsD = "JObj [(''annotationId'', JStr ''nope''), (''reason'', JStr ''no'')]"
      and argsP = "JObj [(''annotationId'', JStr ''nope''), (''message'', JStr ''hi'')]"]
  have z: "fst (handleTool ''agentation_resolve'' (JObj [(''annotationId'', JNum 3)]) scenarioEnv scenarioStore)
     = Inl (ZodError [InvalidType [''annotationId''] ''string'' ''number''])"
    by (simp add: handleTool_def ResolveSchema_def parse2_def property_def issues_def)
  have o: "''agentation_delete'' \<notin> set toolNames" by (simp add: toolNames_def)
  have s: "getSession ''nope'' scenarioStore = None" by (simp add: getSession_def scenarioStore_eq)
  have a: "getAnnotation ''nope'' scenarioStore = None"
    by (simp add: getAnnotation_def scenarioStore_eq)
  from w z have c1: "callTool (\<lambda>iss. ''invalid arguments'') ''agentation_resolve''
        (JObj [(''annotationId'', JNum 3)]) scenarioEnv scenarioStore
        = (\<lparr>content = [Plain ''invalid arguments''], isError = Some True\<rparr>, scenarioStore)" by blast
  from w o have c0: "callTool (\<lambda>iss. ''invalid arguments'') ''agentation_delete'' JUndefined
        scenarioEnv scenarioStore
        = (\<lparr>content = [Plain (''Unknown tool: '' @ ''agentation_delete'')], isError = Some True\<rparr>,
           scenarioStore)" by blast
  from w s schema_nope(2) have c2: "callTool (\<lambda>iss. ''invalid arguments'') ''agentation_get_session''
        (JObj [(''sessionId'', JStr ''nope'')]) scenarioEnv scenarioStore
      = (\<lparr>content = [Plain (''Session not found: '' @ ''nope'')], isError = Some True\<rparr>, scenarioStore)"
    by blast
  from w a schema_nope(3) have c3: "callTool (\<lambda>iss. ''invalid arguments'') ''agentation_acknowledge''
        (JObj [(''annotationId'', JStr ''nope'')]) scenarioEnv scenarioStore
      = (\<lparr>content = [Plain (''Annotation not found: '' @ ''nope'')], isError = Some True\<rparr>, scenarioStore)"
    by blast
  from w a schema_nope(4) have c4: "callTool (\<lambda>iss. ''invalid arguments'') ''agentation_resolve''
        (JObj [(''annotationId'', JStr ''nope'')]) scenarioEnv scenarioStore
      = (\<lparr>content = [Plain (''Annotation not found: '' @ ''nope'')], isError = Some True\<rparr>, scenarioStore)"
    by blast
  from w a schema_nope(5) have c5: "callTool (\<lambda>iss. ''invalid arguments'') ''agentation_dismiss''
        (JObj [(''annotationId'', JStr ''nope''), (''reason'', JStr ''no'')]) scenarioEnv scenarioStore
      = (\<lparr>content = [Plain (''Annotation not found: '' @ ''nope'')], isError = Some True\<rparr>, scenarioStore)"
    by blast
  from w a schema_nope(6) have c6: "callTool (\<lambda>iss. ''invalid arguments'') ''agentation_reply''
        (JObj [(''annotationId'', JStr ''nope''), (''message'', JStr ''hi'')]) scenarioEnv scenarioStore
      = (\<lparr>content = [Plain (''Annotation not found: '' @ ''nope'')], isError = Some True\<rparr>, scenarioStore)"
    by blast
  from z o s a c0 c1 c2 c3 c4 c5 c6 show ?thesis by simp
qed

end
